theory Spec2Isabelle
  imports Complex_Main
begin

section \<open>PostureCV: the posture monitor of \<^verbatim>\<open>src/posture_monitor.py\<close>\<close>

text \<open>
  The class \<^verbatim>\<open>PostureMonitor\<close> is embedded as a record of its attributes and its
  methods as functions on that record. Python floats are taken as exact reals (rounding
  and overflow are not modelled), Python ints that only count as naturals. The two user
  callbacks are opaque Python callables; what the loop can observe of a call is whether
  it returns or raises, so a callback is modelled by that outcome, and every invocation
  is appended to the history \<open>calls\<close>. The loop runs in its own thread; the
  model is sequential, and the only trace of the other thread is the moment at which
  \<^verbatim>\<open>stop()\<close> ends the list of frames.
\<close>

subsection \<open>Data\<close>

type_synonym point = "real \<times> real"

text \<open>The three entries of \<^verbatim>\<open>results.pose_landmarks.landmark\<close> the loop reads
  (normalised coordinates).\<close>

record landmarks =
  lm0 :: point
  lm11 :: point
  lm12 :: point

text \<open>A frame as the loop uses it: \<^verbatim>\<open>frame.shape\<close> and the result of
  \<^verbatim>\<open>self.pose.process(image)\<close> on it (\<open>None\<close>: no pose detected).\<close>

record frame =
  shape_h :: nat
  shape_w :: nat
  pose_landmarks :: "landmarks option"

text \<open>A \<^verbatim>\<open>cv2.VideoCapture\<close> object as far as the open phase looks at it: what
  \<^verbatim>\<open>isOpened()\<close> answers and the \<^verbatim>\<open>ret\<close> of its first \<^verbatim>\<open>read()\<close>.\<close>

record capture =
  isOpened :: bool
  first_read :: bool

datatype cb_outcome = Returns | Raises

datatype event = status_call string | warning_call

datatype exn = CallbackException | ZeroDivisionError

record monitor =
  warning_callback :: "cb_outcome option"
  status_callback :: "(string \<Rightarrow> cb_outcome) option"
  running :: bool
  calibration_frames :: nat
  avg_ratio :: real
  is_calibrated :: bool
  calibration_limit :: nat
  baseline_ratio :: real
  SENSITIVITY :: real
  slouch_timer :: nat
  slouch_trigger_time :: nat
  cap :: "capture option"
  current_status :: string
  calls :: "event list"

text \<open>The result of running a piece of the code on a monitor: it returns, or an
  exception leaves it with the attributes as they were when it was raised.\<close>

datatype outcome = Returned monitor | Raised exn monitor

definition and_then :: "outcome \<Rightarrow> (monitor \<Rightarrow> outcome) \<Rightarrow> outcome" where
  "and_then r k = (case r of Raised e m \<Rightarrow> Raised e m | Returned m \<Rightarrow> k m)"

fun state_of :: "outcome \<Rightarrow> monitor" where
  "state_of (Returned m) = m"
| "state_of (Raised e m) = m"

fun has_raised :: "outcome \<Rightarrow> bool" where
  "has_raised (Returned m) = False"
| "has_raised (Raised e m) = True"

subsection \<open>\<^verbatim>\<open>__init__\<close> and \<^verbatim>\<open>_update_status\<close>\<close>

definition init :: "cb_outcome option \<Rightarrow> (string \<Rightarrow> cb_outcome) option \<Rightarrow> monitor" where
  "init wcb scb =
     \<lparr> warning_callback = wcb, status_callback = scb, running = False,
       calibration_frames = 0, avg_ratio = 0, is_calibrated = False,
       calibration_limit = 90, baseline_ratio = 0,
       SENSITIVITY = 85 / 100, slouch_timer = 0, slouch_trigger_time = 3,
       cap = None, current_status = ''Idle'', calls = [] \<rparr>"

definition update_status :: "string \<Rightarrow> monitor \<Rightarrow> outcome" where
  "update_status status m =
     (let m1 = m\<lparr>current_status := status\<rparr> in
      case status_callback m1 of
        None \<Rightarrow> Returned m1
      | Some cb \<Rightarrow>
          (let m2 = m1\<lparr>calls := calls m1 @ [status_call status]\<rparr> in
           case cb status of
             Returns \<Rightarrow> Returned m2
           | Raises \<Rightarrow> Raised CallbackException m2))"

subsection \<open>The posture ratio (lines 157 to 170)\<close>

text \<open>\<^verbatim>\<open>np.linalg.norm\<close> of a two-element vector.\<close>

definition linalg_norm :: "point \<Rightarrow> real" where
  "linalg_norm v = sqrt ((fst v)\<^sup>2 + (snd v)\<^sup>2)"

text \<open>The ratio from the three points in pixel coordinates; \<open>None\<close> when the guard
  \<^verbatim>\<open>shldr_width > 0\<close> fails and nothing is computed.\<close>

definition ratio_of :: "point \<Rightarrow> point \<Rightarrow> point \<Rightarrow> real option" where
  "ratio_of nose l_shldr r_shldr =
     (let shldr_mid_y = (snd l_shldr + snd r_shldr) / 2;
          neck_height = \<bar>shldr_mid_y - snd nose\<bar>;
          shldr_width = linalg_norm (fst l_shldr - fst r_shldr, snd l_shldr - snd r_shldr)
      in if shldr_width > 0 then Some (neck_height / shldr_width) else None)"

definition to_pixels :: "frame \<Rightarrow> point \<Rightarrow> point" where
  "to_pixels f p = (fst p * real (shape_w f), snd p * real (shape_h f))"

definition current_ratio :: "frame \<Rightarrow> real option" where
  "current_ratio f =
     (case pose_landmarks f of
        None \<Rightarrow> None
      | Some lm \<Rightarrow>
          ratio_of (to_pixels f (lm0 lm)) (to_pixels f (lm11 lm)) (to_pixels f (lm12 lm)))"

subsection \<open>Decimal rendering of the progress percentage\<close>

fun str_nat :: "nat \<Rightarrow> string" where
  "str_nat n =
     (if n < 10 then [char_of (48 + n)]
      else str_nat (n div 10) @ [char_of (48 + n mod 10)])"

definition str :: "int \<Rightarrow> string" where
  "str i = (if i < 0 then CHR ''-'' # str_nat (nat (- i)) else str_nat (nat i))"

subsection \<open>One valid ratio: calibration or slouch detection (lines 172 to 201)\<close>

definition calibrate :: "real \<Rightarrow> monitor \<Rightarrow> outcome" where
  "calibrate r m =
     (let m1 = m\<lparr>calibration_frames := calibration_frames m + 1,
                 avg_ratio := avg_ratio m + r\<rparr>
      in if calibration_limit m1 = 0 then Raised ZeroDivisionError m1
         else
           (let progress =
                  \<lfloor>real (calibration_frames m1) / real (calibration_limit m1) * 100\<rfloor>
            in and_then (update_status (''Calibrating: '' @ str progress @ ''%'') m1)
                 (\<lambda>m2. if calibration_frames m2 \<ge> calibration_limit m2
                       then update_status ''Monitoring''
                              (m2\<lparr>baseline_ratio :=
                                     avg_ratio m2 / real (calibration_limit m2),
                                   is_calibrated := True\<rparr>)
                       else Returned m2)))"

definition check_slouch :: "real \<Rightarrow> monitor \<Rightarrow> outcome" where
  "check_slouch r m =
     (if r < baseline_ratio m * SENSITIVITY m
      then (let m1 = m\<lparr>slouch_timer := slouch_timer m + 1\<rparr>
            in if slouch_timer m1 > 15 then update_status ''SLOUCHING!'' m1
               else Returned m1)
      else update_status ''Good posture'' (m\<lparr>slouch_timer := 0\<rparr>))"

definition trigger_warning :: "monitor \<Rightarrow> outcome" where
  "trigger_warning m =
     (if slouch_timer m > 30 * slouch_trigger_time m
      then (case warning_callback m of
              None \<Rightarrow> Returned (m\<lparr>slouch_timer := 0\<rparr>)
            | Some cb \<Rightarrow>
                (let m1 = m\<lparr>calls := calls m @ [warning_call]\<rparr> in
                 case cb of
                   Returns \<Rightarrow> Returned (m1\<lparr>slouch_timer := 0\<rparr>)
                 | Raises \<Rightarrow> Raised CallbackException m1))
      else Returned m)"

definition on_ratio :: "real \<Rightarrow> monitor \<Rightarrow> outcome" where
  "on_ratio r m =
     (if \<not> is_calibrated m then calibrate r m
      else and_then (check_slouch r m) trigger_warning)"

text \<open>The body of the loop for a frame that was read (lines 149 to 201).\<close>

definition process_frame :: "frame \<Rightarrow> monitor \<Rightarrow> outcome" where
  "process_frame f m =
     (case current_ratio f of None \<Rightarrow> Returned m | Some r \<Rightarrow> on_ratio r m)"

subsection \<open>The acquisition loop (lines 133 to 208)\<close>

definition cap_opened :: "monitor \<Rightarrow> bool" where
  "cap_opened m = (case cap m of None \<Rightarrow> False | Some c \<Rightarrow> isOpened c)"

text \<open>
  The list holds what \<^verbatim>\<open>self.cap.read()\<close> returns at the successive iterations
  (\<open>None\<close>: \<^verbatim>\<open>ret\<close> is false) up to the moment another thread's \<^verbatim>\<open>stop()\<close> clears
  \<^verbatim>\<open>running\<close>; the second argument is \<^verbatim>\<open>consecutive_failures\<close>.
\<close>

fun acquisition :: "frame option list \<Rightarrow> nat \<Rightarrow> monitor \<Rightarrow> outcome" where
  "acquisition [] failures m = Returned m"
| "acquisition (rd # rds) failures m =
     (if \<not> (running m \<and> cap_opened m) then Returned m
      else case rd of
        None \<Rightarrow>
          (if failures + 1 \<ge> 30 then update_status ''Error: Camera read failed'' m
           else acquisition rds (failures + 1) m)
      | Some f \<Rightarrow>
          (case process_frame f m of
             Raised e m' \<Rightarrow> Raised e m'
           | Returned m' \<Rightarrow> acquisition rds 0 m'))"

subsection \<open>Opening the camera (lines 104 to 115)\<close>

text \<open>
  \<open>VideoCapture k\<close> is the object the \<open>k\<close>-th call of \<^verbatim>\<open>cv2.VideoCapture(0)\<close>
  returns. \<open>open_camera VideoCapture attempt n m\<close> runs the \<open>n\<close> remaining iterations
  of the \<^verbatim>\<open>for\<close> loop, starting with iteration \<open>attempt\<close>. An object that is
  not open is released and \<^verbatim>\<open>self.cap\<close> set to \<^verbatim>\<open>None\<close>; one that is open
  but fails its test read stays in \<^verbatim>\<open>self.cap\<close> while the loop goes on; the
  \<^verbatim>\<open>break\<close> is taken when the test read succeeds. The sleeps have no effect
  on the attributes.
\<close>

fun open_camera :: "(nat \<Rightarrow> capture) \<Rightarrow> nat \<Rightarrow> nat \<Rightarrow> monitor \<Rightarrow> monitor" where
  "open_camera VideoCapture attempt 0 m = m"
| "open_camera VideoCapture attempt (Suc n) m =
     (let c = VideoCapture attempt in
      if isOpened c
      then (if first_read c then m\<lparr>cap := Some c\<rparr>
            else open_camera VideoCapture (attempt + 1) n (m\<lparr>cap := Some c\<rparr>))
      else open_camera VideoCapture (attempt + 1) n (m\<lparr>cap := None\<rparr>))"

subsection \<open>\<^verbatim>\<open>_monitor_loop\<close>, \<^verbatim>\<open>start\<close> and \<^verbatim>\<open>stop\<close>\<close>

text \<open>\<^verbatim>\<open>self.cap.release(); self.cap = None\<close> (a no-op when there is no capture).\<close>

definition release_camera :: "monitor \<Rightarrow> monitor" where
  "release_camera m = m\<lparr>cap := None\<rparr>"

definition reset_calibration :: "monitor \<Rightarrow> monitor" where
  "reset_calibration m =
     m\<lparr>calibration_frames := 0, avg_ratio := 0, is_calibrated := False\<rparr>"

definition monitor_loop :: "(nat \<Rightarrow> capture) \<Rightarrow> frame option list \<Rightarrow> monitor \<Rightarrow> outcome" where
  "monitor_loop VideoCapture rds m =
     (let m1 = open_camera VideoCapture 0 3 (m\<lparr>cap := None\<rparr>) in
      if \<not> cap_opened m1
      then and_then (update_status ''Error: Camera access denied'' m1)
             (\<lambda>m2. Returned (m2\<lparr>running := False\<rparr>))
      else and_then (update_status ''Calibrating...'' m1)
             (\<lambda>m2. and_then (acquisition rds 0 (reset_calibration m2))
                (\<lambda>m3. update_status ''Stopped''
                         ((release_camera m3)\<lparr>running := False\<rparr>))))"

definition start :: "monitor \<Rightarrow> monitor" where
  "start m = (if running m then m else m\<lparr>running := True\<rparr>)"

definition stop :: "monitor \<Rightarrow> outcome" where
  "stop m = update_status ''Stopped'' (release_camera (m\<lparr>running := False\<rparr>))"

text \<open>One session: \<^verbatim>\<open>start()\<close>, which launches the loop unless the monitor is
  already running; the loop on the frames read until \<^verbatim>\<open>stop()\<close> is called; then
  \<^verbatim>\<open>stop()\<close> itself, on the attributes the loop's thread left (an exception in that
  thread does not reach the caller of \<^verbatim>\<open>stop()\<close>).\<close>

definition session :: "(nat \<Rightarrow> capture) \<Rightarrow> frame option list \<Rightarrow> monitor \<Rightarrow> outcome" where
  "session VideoCapture rds m =
     (if running m then stop m
      else stop (state_of (monitor_loop VideoCapture rds (start m))))"

subsection \<open>Vocabulary for the properties\<close>

text \<open>What one call of \<^verbatim>\<open>_update_status\<close> adds to the history.\<close>

definition status_events :: "monitor \<Rightarrow> string \<Rightarrow> event list" where
  "status_events m s =
     (case status_callback m of None \<Rightarrow> [] | Some cb \<Rightarrow> [status_call s])"

text \<open>The status callback is absent or returns on every status.\<close>

definition status_returns :: "monitor \<Rightarrow> bool" where
  "status_returns m =
     (case status_callback m of None \<Rightarrow> True | Some cb \<Rightarrow> \<forall>s. cb s = Returns)"

definition callbacks_return :: "monitor \<Rightarrow> bool" where
  "callbacks_return m = (status_returns m \<and> warning_callback m \<noteq> Some Raises)"

text \<open>The monitoring phase: the loop is running on an open camera and calibration
  has completed.\<close>

definition monitoring :: "monitor \<Rightarrow> bool" where
  "monitoring m = (running m \<and> cap_opened m \<and> is_calibrated m)"

text \<open>How many times the warning callback has been invoked.\<close>

definition warnings :: "monitor \<Rightarrow> nat" where
  "warnings m = count_list (calls m) warning_call"

text \<open>A frame with a ratio, and that ratio under \<^verbatim>\<open>baseline_ratio * SENSITIVITY\<close>.\<close>

definition below_threshold :: "monitor \<Rightarrow> frame \<Rightarrow> bool" where
  "below_threshold m f =
     (case current_ratio f of
        None \<Rightarrow> False
      | Some r \<Rightarrow> r < baseline_ratio m * SENSITIVITY m)"

text \<open>The status callback is present and raises on the given status; it is absent or
  returns on it.\<close>

definition raises_on :: "monitor \<Rightarrow> string \<Rightarrow> bool" where
  "raises_on m s = (case status_callback m of None \<Rightarrow> False | Some cb \<Rightarrow> cb s = Raises)"

definition returns_on :: "monitor \<Rightarrow> string \<Rightarrow> bool" where
  "returns_on m s = (case status_callback m of None \<Rightarrow> True | Some cb \<Rightarrow> cb s = Returns)"

text \<open>The status string of line 178 for the frame about to be counted.\<close>

definition progress_status :: "monitor \<Rightarrow> string" where
  "progress_status m =
     ''Calibrating: ''
       @ str \<lfloor>real (calibration_frames m + 1) / real (calibration_limit m) * 100\<rfloor>
       @ ''%''"

text \<open>The attributes that no frame changes.\<close>

definition same_setup :: "monitor \<Rightarrow> monitor \<Rightarrow> bool" where
  "same_setup m m' =
     (warning_callback m' = warning_callback m \<and> status_callback m' = status_callback m
      \<and> running m' = running m \<and> cap m' = cap m
      \<and> calibration_limit m' = calibration_limit m
      \<and> SENSITIVITY m' = SENSITIVITY m
      \<and> slouch_trigger_time m' = slouch_trigger_time m)"

subsection \<open>Concrete inputs\<close>

text \<open>A camera that opens and reads; a 640 by 480 frame of a person sitting upright
  (ratio 1) and one with the head sunk (ratio 3/8); a monitor in its monitoring phase
  with baseline 1.\<close>

definition camera_ok :: capture where
  "camera_ok = \<lparr>isOpened = True, first_read = True\<rparr>"

definition upright_frame :: frame where
  "upright_frame =
     \<lparr>shape_h = 480, shape_w = 640,
      pose_landmarks = Some \<lparr>lm0 = (1/2, 1/12), lm11 = (3/4, 3/4), lm12 = (1/4, 3/4)\<rparr>\<rparr>"

definition slouch_frame :: frame where
  "slouch_frame =
     \<lparr>shape_h = 480, shape_w = 640,
      pose_landmarks = Some \<lparr>lm0 = (1/2, 1/2), lm11 = (3/4, 3/4), lm12 = (1/4, 3/4)\<rparr>\<rparr>"

definition calibrated_monitor :: monitor where
  "calibrated_monitor =
     (init (Some Returns) (Some (\<lambda>s. Returns)))
       \<lparr>running := True, calibration_frames := 90, avg_ratio := 90,
        is_calibrated := True, baseline_ratio := 1, cap := Some camera_ok,
        current_status := ''Monitoring''\<rparr>"

text \<open>A camera that reports open but whose reads fail, one that does not open, and a
  monitor in its monitoring phase whose status callback raises.\<close>

definition camera_unreadable :: capture where
  "camera_unreadable = \<lparr>isOpened = True, first_read = False\<rparr>"

definition camera_closed :: capture where
  "camera_closed = \<lparr>isOpened = False, first_read = False\<rparr>"

definition raising_monitor :: monitor where
  "raising_monitor = calibrated_monitor\<lparr>status_callback := Some (\<lambda>s. Raises)\<rparr>"

text \<open>Two sessions of one monitor: calibration and fifty frames with the head sunk, then
  \<^verbatim>\<open>stop()\<close>; the frames of a second session.\<close>

definition first_session_frames :: "frame option list" where
  "first_session_frames =
     map Some (replicate 90 upright_frame @ replicate 50 slouch_frame)"

definition second_session_frames :: "frame option list" where
  "second_session_frames =
     map Some (replicate 90 upright_frame @ replicate 41 slouch_frame)"

definition after_first_session :: monitor where
  "after_first_session =
     state_of (session (\<lambda>k. camera_ok) first_session_frames (init (Some Returns) None))"

text \<open>A status callback that raises on the report of 100 percent and returns on every
  other status, and a monitor in its monitoring phase whose warning callback raises.\<close>

definition raise_at_full :: "string \<Rightarrow> cb_outcome" where
  "raise_at_full s = (if s = ''Calibrating: 100%'' then Raises else Returns)"

definition warning_raising_monitor :: monitor where
  "warning_raising_monitor = calibrated_monitor\<lparr>warning_callback := Some Raises\<rparr>"

subsection \<open>The preview's copy of the ratio, and scaling\<close>

text \<open>\<^verbatim>\<open>camera_preview.py\<close> (lines 88 to 102) computes the ratio again, on a frame
  resized to 320 by 240.\<close>

definition preview_current_ratio :: "landmarks \<Rightarrow> real option" where
  "preview_current_ratio lm =
     (let w = 320; h = 240;
          nose = (fst (lm0 lm) * w, snd (lm0 lm) * h);
          l_shldr = (fst (lm11 lm) * w, snd (lm11 lm) * h);
          r_shldr = (fst (lm12 lm) * w, snd (lm12 lm) * h);
          shldr_mid_y = (snd l_shldr + snd r_shldr) / 2;
          neck_height = \<bar>shldr_mid_y - snd nose\<bar>;
          shldr_width = linalg_norm (fst l_shldr - fst r_shldr, snd l_shldr - snd r_shldr)
      in if shldr_width > 0 then Some (neck_height / shldr_width) else None)"

text \<open>Multiplying both coordinates of a point by a factor.\<close>

definition scale_point :: "real \<Rightarrow> point \<Rightarrow> point" where
  "scale_point k p = (k * fst p, k * snd p)"

text \<open>A frame whose two shoulder landmarks coincide.\<close>

definition degenerate_frame :: frame where
  "degenerate_frame =
     \<lparr>shape_h = 480, shape_w = 640,
      pose_landmarks = Some \<lparr>lm0 = (1/2, 1/2), lm11 = (3/4, 3/4), lm12 = (3/4, 3/4)\<rparr>\<rparr>"

section \<open>Basic facts\<close>

lemma update_status_returns:
  "status_returns m \<Longrightarrow>
   update_status s m =
     Returned (m\<lparr>current_status := s, calls := calls m @ status_events m s\<rparr>)"
  by (auto simp: update_status_def status_returns_def status_events_def Let_def
           split: option.splits cb_outcome.splits)

lemma status_returns_upd [simp]:
  "status_returns (m\<lparr>slouch_timer := a\<rparr>) = status_returns m"
  "status_returns (m\<lparr>current_status := b\<rparr>) = status_returns m"
  "status_returns (m\<lparr>calls := c\<rparr>) = status_returns m"
  by (simp_all add: status_returns_def)

lemma status_events_upd [simp]:
  "status_events (m\<lparr>slouch_timer := a\<rparr>) = status_events m"
  "status_events (m\<lparr>current_status := b\<rparr>) = status_events m"
  "status_events (m\<lparr>calls := c\<rparr>) = status_events m"
  by (simp_all add: status_events_def fun_eq_iff)

lemma count_status_events [simp]: "count_list (status_events m s) warning_call = 0"
  by (simp add: status_events_def split: option.splits)

lemma count_list_app: "count_list (xs @ ys) a = count_list xs a + count_list ys a"
  by (induction xs) auto

lemma callbacks_return_upd [simp]:
  "callbacks_return (m\<lparr>slouch_timer := a\<rparr>) = callbacks_return m"
  "callbacks_return (m\<lparr>current_status := b\<rparr>) = callbacks_return m"
  "callbacks_return (m\<lparr>calls := c\<rparr>) = callbacks_return m"
  by (simp_all add: callbacks_return_def)

lemma monitoring_upd [simp]:
  "monitoring (m\<lparr>slouch_timer := a\<rparr>) = monitoring m"
  "monitoring (m\<lparr>current_status := b\<rparr>) = monitoring m"
  "monitoring (m\<lparr>calls := c\<rparr>) = monitoring m"
  by (simp_all add: monitoring_def cap_opened_def)

lemma below_threshold_upd [simp]:
  "below_threshold (m\<lparr>slouch_timer := a\<rparr>) = below_threshold m"
  "below_threshold (m\<lparr>current_status := b\<rparr>) = below_threshold m"
  "below_threshold (m\<lparr>calls := c\<rparr>) = below_threshold m"
  by (simp_all add: below_threshold_def fun_eq_iff split: option.splits)

subsection \<open>The concrete inputs evaluated\<close>

lemma linalg_norm_horizontal: "linalg_norm (a, 0) = \<bar>a\<bar>"
  by (simp add: linalg_norm_def)

lemma current_ratio_upright: "current_ratio upright_frame = Some 1"
  by (simp add: current_ratio_def upright_frame_def ratio_of_def to_pixels_def
        linalg_norm_horizontal)

lemma current_ratio_slouch: "current_ratio slouch_frame = Some (3/8)"
  by (simp add: current_ratio_def slouch_frame_def ratio_of_def to_pixels_def
        linalg_norm_horizontal)

lemma calibrated_monitor_facts:
  "monitoring calibrated_monitor" "status_returns calibrated_monitor"
  "callbacks_return calibrated_monitor"
  "warning_callback calibrated_monitor = Some Returns"
  "slouch_timer calibrated_monitor = 0" "slouch_trigger_time calibrated_monitor = 3"
  "warnings calibrated_monitor = 0" "calls calibrated_monitor = []"
  "current_status calibrated_monitor = ''Monitoring''"
  "baseline_ratio calibrated_monitor = 1" "SENSITIVITY calibrated_monitor = 17/20"
  "below_threshold calibrated_monitor slouch_frame"
  "\<not> below_threshold calibrated_monitor upright_frame"
  by (simp_all add: calibrated_monitor_def init_def monitoring_def cap_opened_def
        camera_ok_def status_returns_def callbacks_return_def warnings_def
        below_threshold_def current_ratio_slouch current_ratio_upright)


section \<open>The monitoring phase, frame by frame\<close>

lemma good_step:
  assumes "is_calibrated m" "status_returns m"
    "current_ratio f = Some r" "\<not> r < baseline_ratio m * SENSITIVITY m"
  shows "process_frame f m =
     Returned (m\<lparr>slouch_timer := 0, current_status := ''Good posture'',
                 calls := calls m @ status_events m ''Good posture''\<rparr>)"
  using assms
  by (simp add: process_frame_def on_ratio_def check_slouch_def trigger_warning_def
        and_then_def update_status_returns)

lemma slouch_step:
  assumes "is_calibrated m" "callbacks_return m"
    "current_ratio f = Some r" "r < baseline_ratio m * SENSITIVITY m"
  shows "process_frame f m =
     Returned (m\<lparr>slouch_timer :=
                   (if slouch_timer m + 1 > 30 * slouch_trigger_time m then 0
                    else slouch_timer m + 1),
                 current_status :=
                   (if slouch_timer m + 1 > 15 then ''SLOUCHING!'' else current_status m),
                 calls := calls m
                   @ (if slouch_timer m + 1 > 15 then status_events m ''SLOUCHING!'' else [])
                   @ (if slouch_timer m + 1 > 30 * slouch_trigger_time m
                         \<and> warning_callback m \<noteq> None then [warning_call] else [])\<rparr>)"
  using assms
  by (auto simp: process_frame_def on_ratio_def check_slouch_def trigger_warning_def
        and_then_def callbacks_return_def update_status_returns Let_def
        split: option.splits cb_outcome.splits)

lemma below_threshold_step:
  assumes "monitoring m" "callbacks_return m" "below_threshold m f"
  shows "process_frame f m =
     Returned (m\<lparr>slouch_timer :=
                   (if slouch_timer m + 1 > 30 * slouch_trigger_time m then 0
                    else slouch_timer m + 1),
                 current_status :=
                   (if slouch_timer m + 1 > 15 then ''SLOUCHING!'' else current_status m),
                 calls := calls m
                   @ (if slouch_timer m + 1 > 15 then status_events m ''SLOUCHING!'' else [])
                   @ (if slouch_timer m + 1 > 30 * slouch_trigger_time m
                         \<and> warning_callback m \<noteq> None then [warning_call] else [])\<rparr>)"
  using assms slouch_step[of m f]
  by (auto simp: monitoring_def below_threshold_def split: option.splits)

text \<open>A run of sub-threshold frames in the monitoring phase, from any counter value
  not above the trigger: the counter wraps at the trigger plus one, and the warning
  callback is invoked once per wrap.\<close>

lemma same_setup_trans: "same_setup a b \<Longrightarrow> same_setup b c \<Longrightarrow> same_setup a c"
  by (simp add: same_setup_def)

lemma slouch_run:
  assumes "monitoring m" "status_returns m" "warning_callback m = Some Returns"
    "\<forall>f\<in>set fs. below_threshold m f"
    "slouch_timer m \<le> 30 * slouch_trigger_time m"
  shows "\<exists>m'. acquisition (map Some fs) failures m = Returned m'
      \<and> slouch_timer m' = (slouch_timer m + length fs) mod (30 * slouch_trigger_time m + 1)
      \<and> warnings m' = warnings m
            + (slouch_timer m + length fs) div (30 * slouch_trigger_time m + 1)
      \<and> monitoring m' \<and> status_returns m'
      \<and> warning_callback m' = warning_callback m
      \<and> slouch_trigger_time m' = slouch_trigger_time m
      \<and> below_threshold m' = below_threshold m
      \<and> same_setup m m' \<and> baseline_ratio m' = baseline_ratio m"
  using assms
proof (induction fs arbitrary: m failures)
  case Nil
  then show ?case by (simp add: same_setup_def)
next
  case (Cons f fs)
  let ?T = "30 * slouch_trigger_time m"
  have cb: "callbacks_return m" using Cons.prems(2,3) by (simp add: callbacks_return_def)
  obtain m1 where step: "process_frame f m = Returned m1"
    and t1: "slouch_timer m1 = (if slouch_timer m + 1 > ?T then 0 else slouch_timer m + 1)"
    and w1: "warnings m1 = warnings m + (if slouch_timer m + 1 > ?T then 1 else 0)"
    and k1: "monitoring m1" "status_returns m1" "warning_callback m1 = warning_callback m"
            "slouch_trigger_time m1 = slouch_trigger_time m"
            "below_threshold m1 = below_threshold m"
    and s1: "same_setup m m1" "baseline_ratio m1 = baseline_ratio m"
    using below_threshold_step[of m f] Cons.prems cb
    by (simp add: warnings_def count_list_app same_setup_def)
  have run: "running m \<and> cap_opened m" using Cons.prems(1) by (simp add: monitoring_def)
  have le1: "slouch_timer m1 \<le> 30 * slouch_trigger_time m1" using t1 k1(4) by simp
  from Cons.IH[of m1 0] k1 le1 Cons.prems obtain m' where
    r: "acquisition (map Some fs) 0 m1 = Returned m'"
    and t: "slouch_timer m' = (slouch_timer m1 + length fs) mod (?T + 1)"
    and w: "warnings m' = warnings m1 + (slouch_timer m1 + length fs) div (?T + 1)"
    and k: "monitoring m'" "status_returns m'" "warning_callback m' = warning_callback m"
           "slouch_trigger_time m' = slouch_trigger_time m"
           "below_threshold m' = below_threshold m"
    and s: "same_setup m1 m'" "baseline_ratio m' = baseline_ratio m1"
    by auto
  have ss: "same_setup m m'" "baseline_ratio m' = baseline_ratio m"
    using s s1 same_setup_trans[of m m1 m'] by simp_all
  have acq: "acquisition (map Some (f # fs)) failures m = Returned m'"
    using run step r by simp
  show ?case
  proof (cases "slouch_timer m + 1 > ?T")
    case True
    then have eq: "slouch_timer m = ?T" using Cons.prems(5) by simp
    have m0: "((?T + 1) + length fs) mod (?T + 1) = length fs mod (?T + 1)"
      by (rule mod_add_self1)
    have d0: "((?T + 1) + length fs) div (?T + 1) = length fs div (?T + 1) + 1"
      by (rule div_add_self1) simp
    have len: "slouch_timer m + length (f # fs) = (?T + 1) + length fs" using eq by simp
    have tm: "slouch_timer m' = (slouch_timer m + length (f # fs)) mod (?T + 1)"
      using t t1 True m0 len by simp
    have wm: "warnings m' = warnings m + (slouch_timer m + length (f # fs)) div (?T + 1)"
      using w w1 t1 True d0 len by simp
    show ?thesis using acq tm wm k ss by blast
  next
    case False
    have tm: "slouch_timer m' = (slouch_timer m + length (f # fs)) mod (?T + 1)"
      using t t1 False by simp
    have wm: "warnings m' = warnings m + (slouch_timer m + length (f # fs)) div (?T + 1)"
      using w w1 t1 False by simp
    show ?thesis using acq tm wm k ss by blast
  qed
qed

lemma slouch_step_no_fire:
  assumes "monitoring m" "status_returns m" "below_threshold m f"
    "slouch_timer m + 1 \<le> 30 * slouch_trigger_time m"
  shows "process_frame f m =
     Returned (m\<lparr>slouch_timer := slouch_timer m + 1,
                 current_status :=
                   (if slouch_timer m + 1 > 15 then ''SLOUCHING!'' else current_status m),
                 calls := calls m
                   @ (if slouch_timer m + 1 > 15 then status_events m ''SLOUCHING!''
                      else [])\<rparr>)"
proof -
  from assms(3) obtain r where r: "current_ratio f = Some r"
    "r < baseline_ratio m * SENSITIVITY m"
    by (auto simp: below_threshold_def split: option.splits)
  have c: "is_calibrated m" using assms(1) by (simp add: monitoring_def)
  have "check_slouch r m =
      Returned (m\<lparr>slouch_timer := slouch_timer m + 1,
                 current_status :=
                   (if slouch_timer m + 1 > 15 then ''SLOUCHING!'' else current_status m),
                 calls := calls m
                   @ (if slouch_timer m + 1 > 15 then status_events m ''SLOUCHING!''
                      else [])\<rparr>)"
    using r(2) assms(2) by (simp add: check_slouch_def update_status_returns)
  then show ?thesis
    using r(1) c assms(4)
    by (simp add: process_frame_def on_ratio_def and_then_def trigger_warning_def)
qed

text \<open>A run of sub-threshold frames that stays at or under the trigger: the counter
  counts the frames, and the status is published only once the counter is above 15.\<close>

lemma slouch_run_status:
  assumes "monitoring m" "status_returns m"
    "\<forall>f\<in>set fs. below_threshold m f"
    "slouch_timer m + length fs \<le> 30 * slouch_trigger_time m"
  shows "\<exists>m'. acquisition (map Some fs) failures m = Returned m'
      \<and> slouch_timer m' = slouch_timer m + length fs
      \<and> current_status m' =
          (if fs \<noteq> [] \<and> slouch_timer m + length fs > 15 then ''SLOUCHING!''
           else current_status m)
      \<and> (slouch_timer m + length fs \<le> 15 \<longrightarrow> calls m' = calls m)
      \<and> warnings m' = warnings m"
  using assms
proof (induction fs arbitrary: m failures)
  case Nil
  then show ?case by simp
next
  case (Cons f fs)
  let ?T = "30 * slouch_trigger_time m"
  let ?m1 = "m\<lparr>slouch_timer := slouch_timer m + 1,
                 current_status :=
                   (if slouch_timer m + 1 > 15 then ''SLOUCHING!'' else current_status m),
                 calls := calls m
                   @ (if slouch_timer m + 1 > 15 then status_events m ''SLOUCHING!''
                      else [])\<rparr>"
  have step: "process_frame f m = Returned ?m1"
    using slouch_step_no_fire[of m f] Cons.prems by simp
  have run: "running m \<and> cap_opened m" using Cons.prems(1) by (simp add: monitoring_def)
  have pre: "monitoring ?m1" "status_returns ?m1" "\<forall>f\<in>set fs. below_threshold ?m1 f"
    "slouch_timer ?m1 + length fs \<le> 30 * slouch_trigger_time ?m1"
    using Cons.prems by simp_all
  from Cons.IH[OF pre, of 0] obtain m' where
    r: "acquisition (map Some fs) 0 ?m1 = Returned m'"
    and t: "slouch_timer m' = slouch_timer ?m1 + length fs"
    and s: "current_status m' =
          (if fs \<noteq> [] \<and> slouch_timer ?m1 + length fs > 15 then ''SLOUCHING!''
           else current_status ?m1)"
    and c: "slouch_timer ?m1 + length fs \<le> 15 \<longrightarrow> calls m' = calls ?m1"
    and w: "warnings m' = warnings ?m1"
    by blast
  have acq: "acquisition (map Some (f # fs)) failures m = Returned m'"
    using run step r by simp
  have t': "slouch_timer m' = slouch_timer m + length (f # fs)" using t by simp
  have s': "current_status m' =
          (if slouch_timer m + length (f # fs) > 15 then ''SLOUCHING!''
           else current_status m)"
    using s by (cases "fs = []") auto
  have c': "slouch_timer m + length (f # fs) \<le> 15 \<longrightarrow> calls m' = calls m"
    using c by auto
  have w': "warnings m' = warnings m"
    using w by (simp add: warnings_def count_list_app)
  show ?case using acq t' s' c' w' by simp
qed

section \<open>The calibration phase\<close>

lemma status_returns_cong:
  "status_callback m' = status_callback m \<Longrightarrow> status_returns m' = status_returns m"
  by (simp add: status_returns_def)

lemma status_events_cong:
  "status_callback m' = status_callback m \<Longrightarrow> status_events m' = status_events m"
  by (simp add: status_events_def fun_eq_iff)

lemma calibrating_step:
  assumes "\<not> is_calibrated m" "status_returns m" "0 < calibration_limit m"
    and "current_ratio f = Some r"
  shows "\<exists>m1. process_frame f m = Returned m1
      \<and> calibration_frames m1 = calibration_frames m + 1
      \<and> avg_ratio m1 = avg_ratio m + r
      \<and> is_calibrated m1 = (calibration_limit m \<le> calibration_frames m + 1)
      \<and> baseline_ratio m1 =
          (if calibration_limit m \<le> calibration_frames m + 1
           then (avg_ratio m + r) / real (calibration_limit m) else baseline_ratio m)
      \<and> slouch_timer m1 = slouch_timer m \<and> warnings m1 = warnings m
      \<and> same_setup m m1"
proof -
  let ?m1 = "m\<lparr>calibration_frames := calibration_frames m + 1,
                avg_ratio := avg_ratio m + r\<rparr>"
  let ?s = "''Calibrating: ''
      @ str \<lfloor>real (calibration_frames m + 1) / real (calibration_limit m) * 100\<rfloor> @ ''%''"
  let ?m2 = "?m1\<lparr>current_status := ?s, calls := calls m @ status_events m ?s\<rparr>"
  have sr1: "status_returns ?m1" using assms(2) by (simp add: status_returns_def)
  have u1: "update_status ?s ?m1 = Returned ?m2"
    using update_status_returns[OF sr1, of ?s] by (simp add: status_events_def)
  have on: "process_frame f m = calibrate r m"
    using assms(1,4) by (simp add: process_frame_def on_ratio_def)
  show ?thesis
  proof (cases "calibration_limit m \<le> calibration_frames m + 1")
    case True
    let ?m3 = "?m2\<lparr>baseline_ratio := (avg_ratio m + r) / real (calibration_limit m),
                   is_calibrated := True\<rparr>"
    let ?m4 = "?m3\<lparr>current_status := ''Monitoring'',
                   calls := calls ?m3 @ status_events ?m3 ''Monitoring''\<rparr>"
    have sr3: "status_returns ?m3" using assms(2) by (simp add: status_returns_def)
    have u2: "update_status ''Monitoring'' ?m3 = Returned ?m4"
      by (rule update_status_returns[OF sr3])
    have "calibrate r m = Returned ?m4"
      using assms(3) True u1 u2 by (simp add: calibrate_def and_then_def Let_def)
    then have "process_frame f m = Returned ?m4" using on by simp
    moreover have "warnings ?m4 = warnings m"
      by (simp add: warnings_def count_list_app)
    ultimately show ?thesis using True by (simp add: same_setup_def)
  next
    case False
    have "calibrate r m = Returned ?m2"
      using assms(3) False u1 by (simp add: calibrate_def and_then_def Let_def)
    then have "process_frame f m = Returned ?m2" using on by simp
    moreover have "warnings ?m2 = warnings m"
      by (simp add: warnings_def count_list_app)
    ultimately show ?thesis using False assms(1) by (simp add: same_setup_def)
  qed
qed

text \<open>A run of frames with a ratio in the calibration phase, not longer than what is
  missing to the limit.\<close>

lemma calibration_run:
  assumes "running m" "cap_opened m" "\<not> is_calibrated m" "status_returns m"
    and "\<forall>f\<in>set fs. current_ratio f \<noteq> None"
    and "calibration_frames m + length fs \<le> calibration_limit m"
  shows "\<exists>m'. acquisition (map Some fs) failures m = Returned m'
      \<and> calibration_frames m' = calibration_frames m + length fs
      \<and> avg_ratio m' = avg_ratio m + (\<Sum>f\<leftarrow>fs. the (current_ratio f))
      \<and> is_calibrated m' =
           (fs \<noteq> [] \<and> calibration_frames m + length fs = calibration_limit m)
      \<and> baseline_ratio m' =
           (if fs \<noteq> [] \<and> calibration_frames m + length fs = calibration_limit m
            then avg_ratio m' / real (calibration_limit m) else baseline_ratio m)
      \<and> slouch_timer m' = slouch_timer m \<and> warnings m' = warnings m
      \<and> same_setup m m'"
  using assms
proof (induction fs arbitrary: m failures)
  case Nil
  then show ?case by (simp add: same_setup_def)
next
  case (Cons f fs)
  from Cons.prems(5) obtain r where r: "current_ratio f = Some r" by auto
  have lim: "0 < calibration_limit m" using Cons.prems(6) by simp
  from calibrating_step[OF Cons.prems(3,4) lim r] obtain m1 where
    step: "process_frame f m = Returned m1"
    and f1: "calibration_frames m1 = calibration_frames m + 1"
    and a1: "avg_ratio m1 = avg_ratio m + r"
    and c1: "is_calibrated m1 = (calibration_limit m \<le> calibration_frames m + 1)"
    and b1: "baseline_ratio m1 =
          (if calibration_limit m \<le> calibration_frames m + 1
           then (avg_ratio m + r) / real (calibration_limit m) else baseline_ratio m)"
    and t1: "slouch_timer m1 = slouch_timer m" and w1: "warnings m1 = warnings m"
    and s1: "same_setup m m1"
    by blast
  have acq: "acquisition (map Some (f # fs)) failures m = acquisition (map Some fs) 0 m1"
    using Cons.prems(1,2) step by simp
  show ?case
  proof (cases "calibration_limit m \<le> calibration_frames m + 1")
    case True
    have "length fs = 0" using True Cons.prems(6) by (simp only: length_Cons)
    then have e1: "fs = []" by simp
    have e2: "calibration_frames m + 1 = calibration_limit m"
      using True Cons.prems(6) e1 by simp
    note e = e1 e2
    have "acquisition (map Some (f # fs)) failures m = Returned m1"
      using acq e(1) by simp
    then show ?thesis using e f1 a1 c1 b1 t1 w1 s1 r by simp
  next
    case False
    have pre: "running m1" "cap_opened m1" "\<not> is_calibrated m1" "status_returns m1"
      "\<forall>f\<in>set fs. current_ratio f \<noteq> None"
      "calibration_frames m1 + length fs \<le> calibration_limit m1"
      using Cons.prems s1 c1 f1 False
      by (simp_all add: same_setup_def cap_opened_def status_returns_def)
    from Cons.IH[OF pre, of 0] obtain m' where
      r': "acquisition (map Some fs) 0 m1 = Returned m'"
      and f': "calibration_frames m' = calibration_frames m1 + length fs"
      and a': "avg_ratio m' = avg_ratio m1 + (\<Sum>f\<leftarrow>fs. the (current_ratio f))"
      and c': "is_calibrated m' =
           (fs \<noteq> [] \<and> calibration_frames m1 + length fs = calibration_limit m1)"
      and b': "baseline_ratio m' =
           (if fs \<noteq> [] \<and> calibration_frames m1 + length fs = calibration_limit m1
            then avg_ratio m' / real (calibration_limit m1) else baseline_ratio m1)"
      and t': "slouch_timer m' = slouch_timer m1" and w': "warnings m' = warnings m1"
      and s': "same_setup m1 m'"
      by blast
    have lim1: "calibration_limit m1 = calibration_limit m"
      using s1 by (simp add: same_setup_def)
    have ss: "same_setup m m'" using s1 s' by (simp add: same_setup_def)
    have nonempty: "fs \<noteq> [] \<or> calibration_frames m + 1 \<noteq> calibration_limit m"
      using False by auto
    have cF: "is_calibrated m' =
        (calibration_frames m + length (f # fs) = calibration_limit m)"
      using c' f1 lim1 False by (cases "fs = []") auto
    have bF: "baseline_ratio m' =
        (if calibration_frames m + length (f # fs) = calibration_limit m
         then avg_ratio m' / real (calibration_limit m) else baseline_ratio m)"
      using b' b1 f1 lim1 False by (cases "fs = []") auto
    show ?thesis
      using acq r' f' a' cF bF t' w' ss f1 a1 t1 w1 r by simp
  qed
qed

section \<open>The loop as a whole\<close>

lemma acquisition_raised_append:
  "acquisition rds failures m = Raised e m' \<Longrightarrow>
   acquisition (rds @ later) failures m = Raised e m'"
proof (induction rds arbitrary: failures m)
  case Nil
  then show ?case by simp
next
  case (Cons rd rds)
  show ?case
  proof (cases "running m \<and> cap_opened m")
    case False
    with Cons.prems show ?thesis by simp
  next
    case ok: True
    show ?thesis
    proof (cases rd)
      case None
      show ?thesis
      proof (cases "failures + 1 \<ge> 30")
        case True
        with Cons.prems ok None show ?thesis by simp
      next
        case False
        with Cons.prems ok None
        have "acquisition rds (failures + 1) m = Raised e m'" by simp
        from Cons.IH[OF this] False ok None show ?thesis by simp
      qed
    next
      case (Some f)
      show ?thesis
      proof (cases "process_frame f m")
        case (Returned m1)
        with Cons.prems ok Some have "acquisition rds 0 m1 = Raised e m'" by simp
        from Cons.IH[OF this] Returned ok Some show ?thesis by simp
      next
        case (Raised e1 m1)
        with Cons.prems ok Some show ?thesis by simp
      qed
    qed
  qed
qed

lemma open_camera_only_cap: "\<exists>c. open_camera V a n m = m\<lparr>cap := c\<rparr>"
proof (induction n arbitrary: a m)
  case 0
  have "m = m\<lparr>cap := cap m\<rparr>" by simp
  then show ?case by (metis open_camera.simps(1))
next
  case (Suc n)
  show ?case
  proof (cases "isOpened (V a)")
    case True
    show ?thesis
    proof (cases "first_read (V a)")
      case True
      with \<open>isOpened (V a)\<close> show ?thesis by (auto simp: Let_def)
    next
      case False
      from Suc.IH[of "a + 1" "m\<lparr>cap := Some (V a)\<rparr>"] obtain c where
        "open_camera V (a + 1) n (m\<lparr>cap := Some (V a)\<rparr>) = m\<lparr>cap := c\<rparr>" by auto
      with False \<open>isOpened (V a)\<close> show ?thesis by (auto simp: Let_def)
    qed
  next
    case False
    from Suc.IH[of "a + 1" "m\<lparr>cap := None\<rparr>"] obtain c where
      "open_camera V (a + 1) n (m\<lparr>cap := None\<rparr>) = m\<lparr>cap := c\<rparr>" by auto
    with False show ?thesis by (auto simp: Let_def)
  qed
qed

text \<open>The loop after a successful open phase: the frames are processed from a reset
  calibration, and what the acquisition leaves is returned with the camera released and
  the status \<^verbatim>\<open>Stopped\<close>.\<close>

lemma monitor_loop_opened:
  assumes "cap_opened (open_camera V 0 3 (m\<lparr>cap := None\<rparr>))" and "status_returns m"
  shows "\<exists>m0. running m0 = running m \<and> cap_opened m0 \<and> \<not> is_calibrated m0
      \<and> calibration_frames m0 = 0 \<and> avg_ratio m0 = 0
      \<and> baseline_ratio m0 = baseline_ratio m \<and> slouch_timer m0 = slouch_timer m
      \<and> warnings m0 = warnings m
      \<and> status_callback m0 = status_callback m
      \<and> warning_callback m0 = warning_callback m
      \<and> calibration_limit m0 = calibration_limit m
      \<and> SENSITIVITY m0 = SENSITIVITY m
      \<and> slouch_trigger_time m0 = slouch_trigger_time m
      \<and> monitor_loop V rds m =
          and_then (acquisition rds 0 m0)
            (\<lambda>m3. update_status ''Stopped'' ((release_camera m3)\<lparr>running := False\<rparr>))"
proof -
  obtain c where c: "open_camera V 0 3 (m\<lparr>cap := None\<rparr>) = m\<lparr>cap := c\<rparr>"
    using open_camera_only_cap[of V 0 3 "m\<lparr>cap := None\<rparr>"] by auto
  let ?m1 = "m\<lparr>cap := c\<rparr>"
  have op: "cap_opened ?m1" using assms(1) c by simp
  have sr: "status_returns ?m1" using assms(2) by (simp add: status_returns_def)
  let ?m2 = "?m1\<lparr>current_status := ''Calibrating...'',
                 calls := calls ?m1 @ status_events ?m1 ''Calibrating...''\<rparr>"
  have u: "update_status ''Calibrating...'' ?m1 = Returned ?m2"
    by (rule update_status_returns[OF sr])
  let ?m0 = "reset_calibration ?m2"
  have loop: "monitor_loop V rds m =
          and_then (acquisition rds 0 ?m0)
            (\<lambda>m3. update_status ''Stopped'' ((release_camera m3)\<lparr>running := False\<rparr>))"
    using c op u by (simp add: monitor_loop_def Let_def and_then_def)
  have op0: "cap_opened ?m0" using op by (simp add: cap_opened_def reset_calibration_def)
  have w0: "warnings ?m0 = warnings m"
    by (simp add: warnings_def reset_calibration_def count_list_app)
  have rest: "running ?m0 = running m" "\<not> is_calibrated ?m0"
      "calibration_frames ?m0 = 0" "avg_ratio ?m0 = 0"
      "baseline_ratio ?m0 = baseline_ratio m" "slouch_timer ?m0 = slouch_timer m"
      "status_callback ?m0 = status_callback m"
      "warning_callback ?m0 = warning_callback m"
      "calibration_limit ?m0 = calibration_limit m"
      "SENSITIVITY ?m0 = SENSITIVITY m"
      "slouch_trigger_time ?m0 = slouch_trigger_time m"
    by (simp_all add: reset_calibration_def)
  show ?thesis using loop op0 w0 rest by blast
qed

lemma stopped_fields:
  assumes "status_returns m3"
  shows "\<exists>m4. update_status ''Stopped'' ((release_camera m3)\<lparr>running := False\<rparr>) = Returned m4
      \<and> is_calibrated m4 = is_calibrated m3 \<and> baseline_ratio m4 = baseline_ratio m3
      \<and> calibration_frames m4 = calibration_frames m3 \<and> avg_ratio m4 = avg_ratio m3
      \<and> slouch_timer m4 = slouch_timer m3 \<and> warnings m4 = warnings m3
      \<and> status_callback m4 = status_callback m3
      \<and> warning_callback m4 = warning_callback m3
      \<and> calibration_limit m4 = calibration_limit m3
      \<and> SENSITIVITY m4 = SENSITIVITY m3
      \<and> slouch_trigger_time m4 = slouch_trigger_time m3
      \<and> \<not> running m4 \<and> cap m4 = None \<and> current_status m4 = ''Stopped''"
proof -
  let ?m = "(release_camera m3)\<lparr>running := False\<rparr>"
  have sr: "status_returns ?m"
    using assms by (simp add: status_returns_def release_camera_def)
  show ?thesis
    unfolding update_status_returns[OF sr]
    by (simp add: release_camera_def warnings_def count_list_app)
qed

subsection \<open>The open phase\<close>

lemma open_camera_attempts:
  "(\<And>k. a \<le> k \<Longrightarrow> k < a + n \<Longrightarrow> V k = V' k) \<Longrightarrow>
   open_camera V a n m = open_camera V' a n m"
proof (induction n arbitrary: a m)
  case 0
  show ?case by simp
next
  case (Suc n)
  have h: "V a = V' a" using Suc.prems[of a] by simp
  have r: "\<And>m'. open_camera V (Suc a) n m' = open_camera V' (Suc a) n m'"
    by (rule Suc.IH) (simp add: Suc.prems)
  show ?case by (simp add: h r Let_def)
qed

lemma closed_camera_ends_session:
  assumes "\<And>k. k < 3 \<Longrightarrow> \<not> isOpened (V k)"
    and "status_returns m"
  shows "monitor_loop V rds m =
     Returned (m\<lparr>cap := None, current_status := ''Error: Camera access denied'',
                 calls := calls m @ status_events m ''Error: Camera access denied'',
                 running := False\<rparr>)"
proof -
  have c: "\<not> isOpened (V 0)" "\<not> isOpened (V (Suc 0))" "\<not> isOpened (V (Suc (Suc 0)))"
    using assms(1) by simp_all
  have o: "open_camera V 0 3 (m\<lparr>cap := None\<rparr>) = m\<lparr>cap := None\<rparr>"
    using c by (simp add: numeral_3_eq_3 Let_def)
  have sr: "status_returns (m\<lparr>cap := None\<rparr>)"
    using assms(2) by (simp add: status_returns_def)
  have u: "update_status ''Error: Camera access denied'' (m\<lparr>cap := None\<rparr>)
      = Returned (m\<lparr>cap := None, current_status := ''Error: Camera access denied'',
                 calls := calls m @ status_events m ''Error: Camera access denied''\<rparr>)"
    using update_status_returns[OF sr, of "''Error: Camera access denied''"]
    by (simp add: status_events_def)
  show ?thesis
    by (simp add: monitor_loop_def o u and_then_def cap_opened_def)
qed

lemma closed_camera_example:
  "monitor_loop (\<lambda>k. camera_closed) rds (start (init None None)) =
     Returned ((init None None)\<lparr>current_status := ''Error: Camera access denied''\<rparr>)"
proof -
  let ?m = "start (init None None)"
  have c: "\<And>k. k < 3 \<Longrightarrow> \<not> isOpened ((\<lambda>k. camera_closed) k)"
    by (simp add: camera_closed_def)
  have sr: "status_returns ?m"
    by (simp add: status_returns_def start_def init_def)
  have "monitor_loop (\<lambda>k. camera_closed) rds ?m =
     Returned (?m\<lparr>cap := None, current_status := ''Error: Camera access denied'',
                 calls := calls ?m @ status_events ?m ''Error: Camera access denied'',
                 running := False\<rparr>)"
    by (rule closed_camera_ends_session[of "\<lambda>k. camera_closed", OF c sr])
  also have "?m\<lparr>cap := None, current_status := ''Error: Camera access denied'',
                 calls := calls ?m @ status_events ?m ''Error: Camera access denied'',
                 running := False\<rparr>
      = (init None None)\<lparr>current_status := ''Error: Camera access denied''\<rparr>"
    by (simp add: start_def init_def status_events_def)
  finally show ?thesis .
qed

subsection \<open>Whole sessions\<close>

lemma acquisition_frames_failures:
  "acquisition (map Some fs) failures m = acquisition (map Some fs) 0 m"
  by (cases fs) simp_all

lemma acquisition_frames_append:
  "acquisition (map Some xs) failures m = Returned m' \<Longrightarrow>
   acquisition (map Some (xs @ ys)) failures m = acquisition (map Some ys) 0 m'"
proof (induction xs arbitrary: failures m)
  case Nil
  then show ?case using acquisition_frames_failures[of ys failures m] by simp
next
  case (Cons x xs)
  show ?case
  proof (cases "running m \<and> cap_opened m")
    case False
    with Cons.prems have "m' = m" by simp
    with False show ?thesis by (cases ys) simp_all
  next
    case ok: True
    show ?thesis
    proof (cases "process_frame x m")
      case (Returned m1)
      with Cons.prems ok have "acquisition (map Some xs) 0 m1 = Returned m'" by simp
      from Cons.IH[OF this] Returned ok show ?thesis by simp
    next
      case (Raised e m1)
      with Cons.prems ok show ?thesis by simp
    qed
  qed
qed

lemma stop_fields:
  assumes "status_returns m3"
  shows "\<exists>m4. stop m3 = Returned m4
      \<and> is_calibrated m4 = is_calibrated m3 \<and> baseline_ratio m4 = baseline_ratio m3
      \<and> calibration_frames m4 = calibration_frames m3 \<and> avg_ratio m4 = avg_ratio m3
      \<and> slouch_timer m4 = slouch_timer m3 \<and> warnings m4 = warnings m3
      \<and> status_callback m4 = status_callback m3
      \<and> warning_callback m4 = warning_callback m3
      \<and> calibration_limit m4 = calibration_limit m3
      \<and> SENSITIVITY m4 = SENSITIVITY m3
      \<and> slouch_trigger_time m4 = slouch_trigger_time m3
      \<and> \<not> running m4 \<and> cap m4 = None \<and> current_status m4 = ''Stopped''"
proof -
  have e: "release_camera (m3\<lparr>running := False\<rparr>) = (release_camera m3)\<lparr>running := False\<rparr>"
    by (simp add: release_camera_def)
  show ?thesis unfolding stop_def e by (rule stopped_fields[OF assms])
qed

text \<open>A whole session on a camera that opens, for a monitor with the default
  constants and callbacks that return: ninety upright frames, then \<open>n\<close> frames with the
  head sunk, then \<^verbatim>\<open>stop()\<close>.\<close>

lemma session_upright_then_slouch:
  assumes "\<not> running m" "status_returns m" "warning_callback m = Some Returns"
    and "calibration_limit m = 90" "SENSITIVITY m = 17/20" "slouch_trigger_time m = 3"
    and "slouch_timer m \<le> 90"
  shows "\<exists>m'. session (\<lambda>k. camera_ok)
            (map Some (replicate 90 upright_frame @ replicate n slouch_frame)) m
          = Returned m'
      \<and> slouch_timer m' = (slouch_timer m + n) mod 91
      \<and> warnings m' = warnings m + (slouch_timer m + n) div 91
      \<and> is_calibrated m' \<and> baseline_ratio m' = 1
      \<and> \<not> running m' \<and> status_returns m' \<and> warning_callback m' = Some Returns
      \<and> calibration_limit m' = 90 \<and> SENSITIVITY m' = 17/20
      \<and> slouch_trigger_time m' = 3"
proof -
  let ?V = "\<lambda>k::nat. camera_ok"
  let ?rds = "map Some (replicate 90 upright_frame @ replicate n slouch_frame)"
  have op: "cap_opened (open_camera ?V 0 3 ((start m)\<lparr>cap := None\<rparr>))"
    by (simp add: numeral_3_eq_3 camera_ok_def cap_opened_def)
  have sr: "status_returns (start m)"
    using assms(2) by (simp add: start_def status_returns_def)
  from monitor_loop_opened[OF op sr, of ?rds] obtain m0 where
    m0: "running m0 = running (start m)" "cap_opened m0" "\<not> is_calibrated m0"
      "calibration_frames m0 = 0" "avg_ratio m0 = 0"
      "slouch_timer m0 = slouch_timer (start m)"
      "warnings m0 = warnings (start m)"
      "status_callback m0 = status_callback (start m)"
      "warning_callback m0 = warning_callback (start m)"
      "calibration_limit m0 = calibration_limit (start m)"
      "SENSITIVITY m0 = SENSITIVITY (start m)"
      "slouch_trigger_time m0 = slouch_trigger_time (start m)"
    and loop: "monitor_loop ?V ?rds (start m) =
          and_then (acquisition ?rds 0 m0)
            (\<lambda>m3. update_status ''Stopped'' ((release_camera m3)\<lparr>running := False\<rparr>))"
    by blast
  have st: "running m0" "slouch_timer m0 = slouch_timer m" "warnings m0 = warnings m"
    "warning_callback m0 = Some Returns" "calibration_limit m0 = 90"
    "SENSITIVITY m0 = 17/20" "slouch_trigger_time m0 = 3"
    using m0 assms by (simp_all add: start_def warnings_def)
  have sr0: "status_returns m0" using sr m0(8) by (simp add: status_returns_def)
  have val: "\<forall>f\<in>set (replicate 90 upright_frame). current_ratio f \<noteq> None"
    by (simp add: current_ratio_upright)
  have len: "calibration_frames m0 + length (replicate 90 upright_frame)
      \<le> calibration_limit m0"
    using m0(4) st(5) by simp
  from calibration_run[OF st(1) m0(2,3) sr0 val len, of 0] obtain m1 where
    a1: "acquisition (map Some (replicate 90 upright_frame)) 0 m0 = Returned m1"
    and c1: "is_calibrated m1" and b1: "baseline_ratio m1 = 1"
    and t1: "slouch_timer m1 = slouch_timer m0" and w1: "warnings m1 = warnings m0"
    and s1: "same_setup m0 m1"
    using m0(4,5) st(5) by (auto simp: current_ratio_upright sum_list_replicate)
  have k1: "monitoring m1" "status_returns m1" "warning_callback m1 = Some Returns"
    "slouch_trigger_time m1 = 3" "SENSITIVITY m1 = 17/20" "calibration_limit m1 = 90"
    using s1 st m0(2) c1 sr0
    by (simp_all add: same_setup_def monitoring_def cap_opened_def status_returns_def)
  have bel: "\<forall>f\<in>set (replicate n slouch_frame). below_threshold m1 f"
    using b1 k1(5) by (simp add: below_threshold_def current_ratio_slouch)
  have le: "slouch_timer m1 \<le> 30 * slouch_trigger_time m1"
    using t1 st(2) k1(4) assms(7) by simp
  from slouch_run[OF k1(1,2,3) bel le, of 0] obtain m2 where
    a2: "acquisition (map Some (replicate n slouch_frame)) 0 m1 = Returned m2"
    and t2: "slouch_timer m2 = (slouch_timer m1 + n) mod 91"
    and w2: "warnings m2 = warnings m1 + (slouch_timer m1 + n) div 91"
    and k2: "monitoring m2" "status_returns m2" "warning_callback m2 = warning_callback m1"
    and s2: "same_setup m1 m2" "baseline_ratio m2 = baseline_ratio m1"
    using k1(4) by auto
  have acq: "acquisition ?rds 0 m0 = Returned m2"
    using acquisition_frames_append[OF a1, of "replicate n slouch_frame"] a2 by simp
  from stopped_fields[OF k2(2)] obtain m3 where
    u3: "update_status ''Stopped'' ((release_camera m2)\<lparr>running := False\<rparr>) = Returned m3"
    and f3: "is_calibrated m3 = is_calibrated m2" "baseline_ratio m3 = baseline_ratio m2"
      "slouch_timer m3 = slouch_timer m2" "warnings m3 = warnings m2"
      "status_callback m3 = status_callback m2"
      "warning_callback m3 = warning_callback m2"
      "calibration_limit m3 = calibration_limit m2"
      "SENSITIVITY m3 = SENSITIVITY m2"
      "slouch_trigger_time m3 = slouch_trigger_time m2"
    by blast
  have ml: "monitor_loop ?V ?rds (start m) = Returned m3"
    using loop acq u3 by (simp add: and_then_def)
  have sr3: "status_returns m3" using k2(2) f3(5) by (simp add: status_returns_def)
  from stop_fields[OF sr3] obtain m4 where
    u4: "stop m3 = Returned m4"
    and f4: "is_calibrated m4 = is_calibrated m3" "baseline_ratio m4 = baseline_ratio m3"
      "slouch_timer m4 = slouch_timer m3" "warnings m4 = warnings m3"
      "status_callback m4 = status_callback m3"
      "warning_callback m4 = warning_callback m3"
      "calibration_limit m4 = calibration_limit m3"
      "SENSITIVITY m4 = SENSITIVITY m3"
      "slouch_trigger_time m4 = slouch_trigger_time m3"
      "\<not> running m4"
    by blast
  have se: "session ?V ?rds m = Returned m4"
    using assms(1) ml u4 by (simp add: session_def)
  have sr4: "status_returns m4" using sr3 f4(5) by (simp add: status_returns_def)
  have cal: "is_calibrated m4" using f4(1) f3(1) k2(1) by (simp add: monitoring_def)
  have base: "baseline_ratio m4 = 1" using f4(2) f3(2) s2(2) b1 by simp
  have tim: "slouch_timer m4 = (slouch_timer m + n) mod 91"
    using f4(3) f3(3) t2 t1 st(2) by simp
  have war: "warnings m4 = warnings m + (slouch_timer m + n) div 91"
    using f4(4) f3(4) w2 w1 t1 st(2,3) by simp
  have cfg: "warning_callback m4 = Some Returns" "calibration_limit m4 = 90"
    "SENSITIVITY m4 = 17/20" "slouch_trigger_time m4 = 3"
    using f4 f3 s2(1) k1 k2(3) by (simp_all add: same_setup_def)
  show ?thesis using se tim war cal base f4(10) sr4 cfg by blast
qed

subsection \<open>The ratio\<close>

lemma preview_ratio_is_monitor_ratio:
  "preview_current_ratio lm =
     current_ratio \<lparr>shape_h = 240, shape_w = 320, pose_landmarks = Some lm\<rparr>"
  by (simp add: preview_current_ratio_def current_ratio_def ratio_of_def to_pixels_def
        Let_def)

lemma linalg_norm_scale:
  assumes "0 < k"
  shows "linalg_norm (k * a, k * b) = k * linalg_norm (a, b)"
proof -
  have "(k * a)\<^sup>2 + (k * b)\<^sup>2 = k\<^sup>2 * (a\<^sup>2 + b\<^sup>2)"
    by (simp add: power_mult_distrib distrib_left)
  then have "sqrt ((k * a)\<^sup>2 + (k * b)\<^sup>2) = sqrt (k\<^sup>2) * sqrt (a\<^sup>2 + b\<^sup>2)"
    by (simp add: real_sqrt_mult)
  then show ?thesis using assms by (simp add: linalg_norm_def)
qed

section \<open>Callbacks that raise\<close>

lemma update_status_raises:
  "raises_on m s \<Longrightarrow>
   update_status s m =
     Raised CallbackException (m\<lparr>current_status := s, calls := calls m @ [status_call s]\<rparr>)"
  by (cases "status_callback m") (simp_all add: update_status_def raises_on_def)

lemma update_status_returns_on:
  "returns_on m s \<Longrightarrow>
   update_status s m =
     Returned (m\<lparr>current_status := s, calls := calls m @ status_events m s\<rparr>)"
  by (cases "status_callback m")
     (simp_all add: update_status_def returns_on_def status_events_def)

lemma status_returns_on: "status_returns m \<Longrightarrow> returns_on m s"
  by (cases "status_callback m") (simp_all add: status_returns_def returns_on_def)

lemma raises_on_cong:
  "status_callback m' = status_callback m \<Longrightarrow> raises_on m' = raises_on m"
  by (simp add: raises_on_def fun_eq_iff)

lemma returns_on_cong:
  "status_callback m' = status_callback m \<Longrightarrow> returns_on m' = returns_on m"
  by (simp add: returns_on_def fun_eq_iff)

lemma good_frame_raises:
  assumes "running m" "cap_opened m" "is_calibrated m" "current_ratio f = Some r"
    and "\<not> r < baseline_ratio m * SENSITIVITY m" "raises_on m ''Good posture''"
  shows "acquisition (Some f # later) failures m =
     Raised CallbackException
       (m\<lparr>slouch_timer := 0, current_status := ''Good posture'',
          calls := calls m @ [status_call ''Good posture'']\<rparr>)"
proof -
  let ?m1 = "m\<lparr>slouch_timer := 0\<rparr>"
  have r1: "raises_on ?m1 ''Good posture''"
    using assms(6) by (simp add: raises_on_def)
  have "check_slouch r m =
     Raised CallbackException
       (?m1\<lparr>current_status := ''Good posture'',
            calls := calls ?m1 @ [status_call ''Good posture'']\<rparr>)"
    using assms(5) update_status_raises[OF r1] by (simp add: check_slouch_def)
  then have "process_frame f m =
     Raised CallbackException
       (m\<lparr>slouch_timer := 0, current_status := ''Good posture'',
          calls := calls m @ [status_call ''Good posture'']\<rparr>)"
    using assms(3,4) by (simp add: process_frame_def on_ratio_def and_then_def)
  then show ?thesis using assms(1,2) by simp
qed

lemma slouching_status_raises:
  assumes "running m" "cap_opened m" "is_calibrated m" "current_ratio f = Some r"
    and "r < baseline_ratio m * SENSITIVITY m" "15 < slouch_timer m + 1"
    and "raises_on m ''SLOUCHING!''"
  shows "acquisition (Some f # later) failures m =
     Raised CallbackException
       (m\<lparr>slouch_timer := slouch_timer m + 1, current_status := ''SLOUCHING!'',
          calls := calls m @ [status_call ''SLOUCHING!'']\<rparr>)"
proof -
  let ?m1 = "m\<lparr>slouch_timer := slouch_timer m + 1\<rparr>"
  have r1: "raises_on ?m1 ''SLOUCHING!''"
    using assms(7) by (simp add: raises_on_def)
  have "check_slouch r m =
     Raised CallbackException
       (?m1\<lparr>current_status := ''SLOUCHING!'',
            calls := calls ?m1 @ [status_call ''SLOUCHING!'']\<rparr>)"
    using assms(5,6) update_status_raises[OF r1] by (simp add: check_slouch_def)
  then have "process_frame f m =
     Raised CallbackException
       (m\<lparr>slouch_timer := slouch_timer m + 1, current_status := ''SLOUCHING!'',
          calls := calls m @ [status_call ''SLOUCHING!'']\<rparr>)"
    using assms(3,4) by (simp add: process_frame_def on_ratio_def and_then_def)
  then show ?thesis using assms(1,2) by simp
qed

lemma warning_raises:
  assumes "running m" "cap_opened m" "is_calibrated m" "current_ratio f = Some r"
    and "r < baseline_ratio m * SENSITIVITY m"
    and "30 * slouch_trigger_time m < slouch_timer m + 1"
    and "15 < slouch_timer m + 1 \<longrightarrow> returns_on m ''SLOUCHING!''"
    and "warning_callback m = Some Raises"
  shows "acquisition (Some f # later) failures m =
     Raised CallbackException
       (m\<lparr>slouch_timer := slouch_timer m + 1,
          current_status :=
            (if 15 < slouch_timer m + 1 then ''SLOUCHING!'' else current_status m),
          calls := calls m
            @ (if 15 < slouch_timer m + 1 then status_events m ''SLOUCHING!'' else [])
            @ [warning_call]\<rparr>)"
proof -
  let ?m1 = "m\<lparr>slouch_timer := slouch_timer m + 1\<rparr>"
  let ?m2 = "m\<lparr>slouch_timer := slouch_timer m + 1,
          current_status :=
            (if 15 < slouch_timer m + 1 then ''SLOUCHING!'' else current_status m),
          calls := calls m
            @ (if 15 < slouch_timer m + 1 then status_events m ''SLOUCHING!'' else [])\<rparr>"
  have c: "check_slouch r m = Returned ?m2"
  proof (cases "15 < slouch_timer m + 1")
    case True
    then have "returns_on ?m1 ''SLOUCHING!''"
      using assms(7) by (simp add: returns_on_def)
    from update_status_returns_on[OF this] True assms(5) show ?thesis
      by (simp add: check_slouch_def status_events_def)
  next
    case False
    with assms(5) show ?thesis by (simp add: check_slouch_def)
  qed
  have t: "trigger_warning ?m2 =
      Raised CallbackException (?m2\<lparr>calls := calls ?m2 @ [warning_call]\<rparr>)"
    using assms(6,8) by (simp add: trigger_warning_def)
  have "process_frame f m =
      Raised CallbackException (?m2\<lparr>calls := calls ?m2 @ [warning_call]\<rparr>)"
    using assms(3,4) c t by (simp add: process_frame_def on_ratio_def and_then_def)
  then show ?thesis using assms(1,2) by simp
qed

lemma progress_status_raises:
  assumes "running m" "cap_opened m" "\<not> is_calibrated m" "current_ratio f = Some r"
    and "0 < calibration_limit m" "raises_on m (progress_status m)"
  shows "acquisition (Some f # later) failures m =
     Raised CallbackException
       (m\<lparr>calibration_frames := calibration_frames m + 1, avg_ratio := avg_ratio m + r,
          current_status := progress_status m,
          calls := calls m @ [status_call (progress_status m)]\<rparr>)"
proof -
  let ?m1 = "m\<lparr>calibration_frames := calibration_frames m + 1,
                avg_ratio := avg_ratio m + r\<rparr>"
  have r1: "raises_on ?m1 (progress_status m)"
    using assms(6) by (simp add: raises_on_def)
  have "calibrate r m =
     Raised CallbackException
       (?m1\<lparr>current_status := progress_status m,
            calls := calls ?m1 @ [status_call (progress_status m)]\<rparr>)"
    using assms(5) update_status_raises[OF r1]
    by (simp add: calibrate_def and_then_def Let_def progress_status_def)
  then have "process_frame f m =
     Raised CallbackException
       (m\<lparr>calibration_frames := calibration_frames m + 1, avg_ratio := avg_ratio m + r,
          current_status := progress_status m,
          calls := calls m @ [status_call (progress_status m)]\<rparr>)"
    using assms(3,4) by (simp add: process_frame_def on_ratio_def)
  then show ?thesis using assms(1,2) by simp
qed

lemma monitoring_status_raises:
  assumes "running m" "cap_opened m" "\<not> is_calibrated m" "current_ratio f = Some r"
    and "0 < calibration_limit m" "returns_on m (progress_status m)"
    and "calibration_limit m \<le> calibration_frames m + 1"
    and "raises_on m ''Monitoring''"
  shows "acquisition (Some f # later) failures m =
     Raised CallbackException
       (m\<lparr>calibration_frames := calibration_frames m + 1, avg_ratio := avg_ratio m + r,
          baseline_ratio := (avg_ratio m + r) / real (calibration_limit m),
          is_calibrated := True,
          current_status := ''Monitoring'',
          calls := calls m @ status_events m (progress_status m)
                     @ [status_call ''Monitoring'']\<rparr>)"
proof -
  let ?m1 = "m\<lparr>calibration_frames := calibration_frames m + 1,
                avg_ratio := avg_ratio m + r\<rparr>"
  let ?m2 = "?m1\<lparr>current_status := progress_status m,
                  calls := calls m @ status_events m (progress_status m)\<rparr>"
  let ?m3 = "?m2\<lparr>baseline_ratio := (avg_ratio m + r) / real (calibration_limit m),
                  is_calibrated := True\<rparr>"
  have q1: "returns_on ?m1 (progress_status m)"
    using assms(6) by (simp add: returns_on_def)
  have u1: "update_status (progress_status m) ?m1 = Returned ?m2"
    using update_status_returns_on[OF q1] by (simp add: status_events_def)
  have r3: "raises_on ?m3 ''Monitoring''"
    using assms(8) by (simp add: raises_on_def)
  have u2: "update_status ''Monitoring'' ?m3 =
      Raised CallbackException
        (?m3\<lparr>current_status := ''Monitoring'',
             calls := calls ?m3 @ [status_call ''Monitoring'']\<rparr>)"
    by (rule update_status_raises[OF r3])
  have "calibrate r m =
      Raised CallbackException
        (?m3\<lparr>current_status := ''Monitoring'',
             calls := calls ?m3 @ [status_call ''Monitoring'']\<rparr>)"
    using assms(5,7) u1 u2
    by (simp add: calibrate_def and_then_def Let_def progress_status_def)
  then have "process_frame f m =
     Raised CallbackException
       (m\<lparr>calibration_frames := calibration_frames m + 1, avg_ratio := avg_ratio m + r,
          baseline_ratio := (avg_ratio m + r) / real (calibration_limit m),
          is_calibrated := True,
          current_status := ''Monitoring'',
          calls := calls m @ status_events m (progress_status m)
                     @ [status_call ''Monitoring'']\<rparr>)"
    using assms(3,4) by (simp add: process_frame_def on_ratio_def)
  then show ?thesis using assms(1,2) by simp
qed

lemma read_failed_status_raises:
  assumes "running m" "cap_opened m" "30 \<le> failures + 1"
    and "raises_on m ''Error: Camera read failed''"
  shows "acquisition (None # later) failures m =
     Raised CallbackException
       (m\<lparr>current_status := ''Error: Camera read failed'',
          calls := calls m @ [status_call ''Error: Camera read failed'']\<rparr>)"
  using assms(1,2,3) update_status_raises[OF assms(4)] by simp

lemma str_nat_short: "n < 100 \<Longrightarrow> length (str_nat n) \<le> 2"
proof (cases "n < 10")
  case True
  then show ?thesis by simp
next
  case False
  assume "n < 100"
  then have "n div 10 < 10" by simp
  then have "length (str_nat (n div 10)) = 1" by simp
  then show ?thesis using False by (subst str_nat.simps) simp
qed

lemma str_hundred: "str 100 = ''100''"
  by code_simp

lemma str_not_hundred: "0 \<le> p \<Longrightarrow> p < 100 \<Longrightarrow> str p \<noteq> ''100''"
proof
  assume p: "0 \<le> p" "p < 100" and e: "str p = ''100''"
  have "nat p < 100" using p by simp
  then have "length (str_nat (nat p)) \<le> 2" by (rule str_nat_short)
  moreover have "str p = str_nat (nat p)" using p(1) by (simp add: str_def)
  ultimately have "length (str p) \<le> 2" by simp
  then show False using e by simp
qed

lemma progress_below_full:
  assumes "calibration_frames m + 1 < calibration_limit m"
  shows "progress_status m \<noteq> ''Calibrating: 100%''"
proof -
  let ?x = "real (calibration_frames m + 1) / real (calibration_limit m) * 100"
  have pos: "0 < real (calibration_limit m)" using assms by simp
  have "real (calibration_frames m + 1) < real (calibration_limit m)"
    using assms by (simp only: of_nat_less_iff)
  then have "real (calibration_frames m + 1) / real (calibration_limit m) < 1"
    using pos by (simp only: divide_less_eq_1_pos)
  then have "real (calibration_frames m + 1) / real (calibration_limit m) * 100 < 1 * 100"
    by (intro mult_strict_right_mono) simp_all
  then have lt: "?x < 100" by simp
  have ge: "0 \<le> ?x" by simp
  have "\<lfloor>?x\<rfloor> < 100" using lt by (simp add: floor_less_iff)
  moreover have "0 \<le> \<lfloor>?x\<rfloor>" using ge by simp
  ultimately have "str \<lfloor>?x\<rfloor> \<noteq> ''100''" by (intro str_not_hundred)
  then show ?thesis by (simp add: progress_status_def)
qed

lemma accumulating_step:
  assumes "\<not> is_calibrated m" "0 < calibration_limit m" "current_ratio f = Some r"
    and "calibration_frames m + 1 < calibration_limit m"
    and "returns_on m (progress_status m)"
  shows "process_frame f m =
     Returned (m\<lparr>calibration_frames := calibration_frames m + 1,
                 avg_ratio := avg_ratio m + r,
                 current_status := progress_status m,
                 calls := calls m @ status_events m (progress_status m)\<rparr>)"
proof -
  let ?m1 = "m\<lparr>calibration_frames := calibration_frames m + 1,
                avg_ratio := avg_ratio m + r\<rparr>"
  have q1: "returns_on ?m1 (progress_status m)"
    using assms(5) by (simp add: returns_on_def)
  have u1: "update_status (progress_status m) ?m1 =
      Returned (?m1\<lparr>current_status := progress_status m,
                    calls := calls m @ status_events m (progress_status m)\<rparr>)"
    using update_status_returns_on[OF q1] by (simp add: status_events_def)
  have "calibrate r m =
      Returned (?m1\<lparr>current_status := progress_status m,
                    calls := calls m @ status_events m (progress_status m)\<rparr>)"
    using assms(2,4) u1
    by (simp add: calibrate_def and_then_def Let_def progress_status_def)
  then show ?thesis using assms(1,3) by (simp add: process_frame_def on_ratio_def)
qed

text \<open>Frames that keep the count under the limit, with the status callback that raises
  on the report of 100 percent only.\<close>

lemma accumulating_run:
  assumes "running m" "cap_opened m" "\<not> is_calibrated m"
    and "status_callback m = Some raise_at_full"
    and "\<forall>f\<in>set fs. current_ratio f \<noteq> None"
    and "calibration_frames m + length fs < calibration_limit m"
  shows "\<exists>m'. acquisition (map Some fs) failures m = Returned m'
      \<and> calibration_frames m' = calibration_frames m + length fs
      \<and> avg_ratio m' = avg_ratio m + (\<Sum>f\<leftarrow>fs. the (current_ratio f))
      \<and> \<not> is_calibrated m' \<and> baseline_ratio m' = baseline_ratio m
      \<and> same_setup m m'"
  using assms
proof (induction fs arbitrary: m failures)
  case Nil
  then show ?case by (simp add: same_setup_def)
next
  case (Cons f fs)
  from Cons.prems(5) obtain r where r: "current_ratio f = Some r" by auto
  have lim: "0 < calibration_limit m" "calibration_frames m + 1 < calibration_limit m"
    using Cons.prems(6) by simp_all
  have "raise_at_full (progress_status m) = Returns"
    using progress_below_full[OF lim(2)] by (simp add: raise_at_full_def)
  then have ret: "returns_on m (progress_status m)"
    using Cons.prems(4) by (simp add: returns_on_def)
  let ?m1 = "m\<lparr>calibration_frames := calibration_frames m + 1,
                 avg_ratio := avg_ratio m + r,
                 current_status := progress_status m,
                 calls := calls m @ status_events m (progress_status m)\<rparr>"
  have step: "process_frame f m = Returned ?m1"
    by (rule accumulating_step[OF Cons.prems(3) lim(1) r lim(2) ret])
  have acq: "acquisition (map Some (f # fs)) failures m = acquisition (map Some fs) 0 ?m1"
    using Cons.prems(1,2) step by simp
  have pre: "running ?m1" "cap_opened ?m1" "\<not> is_calibrated ?m1"
    "status_callback ?m1 = Some raise_at_full"
    "\<forall>f\<in>set fs. current_ratio f \<noteq> None"
    "calibration_frames ?m1 + length fs < calibration_limit ?m1"
    using Cons.prems by (simp_all add: cap_opened_def)
  from Cons.IH[OF pre, of 0] obtain m' where
    r': "acquisition (map Some fs) 0 ?m1 = Returned m'"
    and f': "calibration_frames m' = calibration_frames ?m1 + length fs"
    and a': "avg_ratio m' = avg_ratio ?m1 + (\<Sum>f\<leftarrow>fs. the (current_ratio f))"
    and c': "\<not> is_calibrated m'" and b': "baseline_ratio m' = baseline_ratio ?m1"
    and s': "same_setup ?m1 m'"
    by blast
  have ss: "same_setup m m'" using s' by (simp add: same_setup_def)
  show ?case using acq r' f' a' c' b' ss r by simp
qed

lemma monitor_loop_opened_on:
  assumes "cap_opened (open_camera V 0 3 (m\<lparr>cap := None\<rparr>))"
    and "returns_on m ''Calibrating...''"
  shows "\<exists>m0. running m0 = running m \<and> cap_opened m0 \<and> \<not> is_calibrated m0
      \<and> calibration_frames m0 = 0 \<and> avg_ratio m0 = 0
      \<and> baseline_ratio m0 = baseline_ratio m \<and> slouch_timer m0 = slouch_timer m
      \<and> status_callback m0 = status_callback m
      \<and> warning_callback m0 = warning_callback m
      \<and> calibration_limit m0 = calibration_limit m
      \<and> monitor_loop V rds m =
          and_then (acquisition rds 0 m0)
            (\<lambda>m3. update_status ''Stopped'' ((release_camera m3)\<lparr>running := False\<rparr>))"
proof -
  obtain c where c: "open_camera V 0 3 (m\<lparr>cap := None\<rparr>) = m\<lparr>cap := c\<rparr>"
    using open_camera_only_cap[of V 0 3 "m\<lparr>cap := None\<rparr>"] by auto
  let ?m1 = "m\<lparr>cap := c\<rparr>"
  have op: "cap_opened ?m1" using assms(1) c by simp
  have sr: "returns_on ?m1 ''Calibrating...''" using assms(2) by (simp add: returns_on_def)
  let ?m2 = "?m1\<lparr>current_status := ''Calibrating...'',
                 calls := calls ?m1 @ status_events ?m1 ''Calibrating...''\<rparr>"
  have u: "update_status ''Calibrating...'' ?m1 = Returned ?m2"
    by (rule update_status_returns_on[OF sr])
  let ?m0 = "reset_calibration ?m2"
  have loop: "monitor_loop V rds m =
          and_then (acquisition rds 0 ?m0)
            (\<lambda>m3. update_status ''Stopped'' ((release_camera m3)\<lparr>running := False\<rparr>))"
    using c op u by (simp add: monitor_loop_def Let_def and_then_def)
  have op0: "cap_opened ?m0" using op by (simp add: cap_opened_def reset_calibration_def)
  have rest: "running ?m0 = running m" "\<not> is_calibrated ?m0"
      "calibration_frames ?m0 = 0" "avg_ratio ?m0 = 0"
      "baseline_ratio ?m0 = baseline_ratio m" "slouch_timer ?m0 = slouch_timer m"
      "status_callback ?m0 = status_callback m"
      "warning_callback ?m0 = warning_callback m"
      "calibration_limit ?m0 = calibration_limit m"
    by (simp_all add: reset_calibration_def)
  show ?thesis using loop op0 rest by blast
qed

lemma slouch_run_quiet:
  assumes "monitoring m" "status_returns m"
    "\<forall>f\<in>set fs. below_threshold m f"
    "slouch_timer m + length fs \<le> 30 * slouch_trigger_time m"
  shows "\<exists>m'. acquisition (map Some fs) failures m = Returned m'
      \<and> slouch_timer m' = slouch_timer m + length fs
      \<and> warnings m' = warnings m
      \<and> is_calibrated m' \<and> baseline_ratio m' = baseline_ratio m
      \<and> same_setup m m'"
  using assms
proof (induction fs arbitrary: m failures)
  case Nil
  then show ?case by (simp add: same_setup_def monitoring_def)
next
  case (Cons f fs)
  let ?m1 = "m\<lparr>slouch_timer := slouch_timer m + 1,
                 current_status :=
                   (if slouch_timer m + 1 > 15 then ''SLOUCHING!'' else current_status m),
                 calls := calls m
                   @ (if slouch_timer m + 1 > 15 then status_events m ''SLOUCHING!''
                      else [])\<rparr>"
  have step: "process_frame f m = Returned ?m1"
    using slouch_step_no_fire[of m f] Cons.prems by simp
  have run: "running m \<and> cap_opened m" using Cons.prems(1) by (simp add: monitoring_def)
  have pre: "monitoring ?m1" "status_returns ?m1" "\<forall>f\<in>set fs. below_threshold ?m1 f"
    "slouch_timer ?m1 + length fs \<le> 30 * slouch_trigger_time ?m1"
    using Cons.prems by simp_all
  from Cons.IH[OF pre, of 0] obtain m' where
    r: "acquisition (map Some fs) 0 ?m1 = Returned m'"
    and t: "slouch_timer m' = slouch_timer ?m1 + length fs"
    and w: "warnings m' = warnings ?m1"
    and c: "is_calibrated m'" "baseline_ratio m' = baseline_ratio ?m1"
    and s: "same_setup ?m1 m'"
    by blast
  have acq: "acquisition (map Some (f # fs)) failures m = Returned m'"
    using run step r by simp
  have w': "warnings m' = warnings m"
    using w by (simp add: warnings_def count_list_app)
  have ss: "same_setup m m'" using s by (simp add: same_setup_def)
  show ?case using acq t w' c ss by simp
qed

lemma slouch_timer_upd_facts:
  "cap_opened (m\<lparr>slouch_timer := a\<rparr>) = cap_opened m"
  "raises_on (m\<lparr>slouch_timer := a\<rparr>) = raises_on m"
  "returns_on (m\<lparr>slouch_timer := a\<rparr>) = returns_on m"
  by (simp_all add: cap_opened_def raises_on_def returns_on_def fun_eq_iff)

lemma raising_monitor_facts:
  "is_calibrated raising_monitor" "running raising_monitor"
  "cap_opened raising_monitor" "slouch_timer raising_monitor = 0"
  "calls raising_monitor = []" "current_status raising_monitor = ''Monitoring''"
  "baseline_ratio raising_monitor = 1" "SENSITIVITY raising_monitor = 17/20"
  "slouch_trigger_time raising_monitor = 3"
  "raises_on raising_monitor s" "\<not> returns_on raising_monitor s"
  by (simp_all add: raising_monitor_def calibrated_monitor_def init_def cap_opened_def
        camera_ok_def raises_on_def returns_on_def)

lemma warning_raising_monitor_facts:
  "monitoring warning_raising_monitor" "status_returns warning_raising_monitor"
  "running warning_raising_monitor" "cap_opened warning_raising_monitor"
  "is_calibrated warning_raising_monitor"
  "warning_callback warning_raising_monitor = Some Raises"
  "slouch_timer warning_raising_monitor = 0"
  "slouch_trigger_time warning_raising_monitor = 3"
  "warnings warning_raising_monitor = 0"
  "baseline_ratio warning_raising_monitor = 1"
  "SENSITIVITY warning_raising_monitor = 17/20"
  "below_threshold warning_raising_monitor slouch_frame"
  by (simp_all add: warning_raising_monitor_def calibrated_monitor_def init_def
        monitoring_def cap_opened_def camera_ok_def status_returns_def warnings_def
        below_threshold_def current_ratio_slouch)

section \<open>Claims\<close>

text \<open>
  C1 (as amended). In the monitoring phase, with callbacks that return, a run of
  consecutive sub-threshold frames that starts from a zero counter invokes the warning
  callback on the frame at which the counter exceeds
  \<^verbatim>\<open>30 * slouch_trigger_time\<close> (by default the 91st frame) and on no earlier frame:
  after any number of frames up to the trigger no warning has been issued and the
  counter equals the number of frames; after one frame more exactly one warning has
  been issued and the counter is back at 0.
\<close>

theorem warning_fires_one_past_trigger:
  assumes "monitoring m" "status_returns m" "warning_callback m = Some Returns"
    and "slouch_timer m = 0"
    and "\<forall>f\<in>set fs. below_threshold m f"
  shows "\<exists>m'. acquisition (map Some fs) failures m = Returned m'
      \<and> (length fs \<le> 30 * slouch_trigger_time m \<longrightarrow>
           warnings m' = warnings m \<and> slouch_timer m' = length fs)
      \<and> (length fs = 30 * slouch_trigger_time m + 1 \<longrightarrow>
           warnings m' = warnings m + 1 \<and> slouch_timer m' = 0)"
proof -
  from slouch_run[OF assms(1,2,3,5), of failures] assms(4)
  obtain m' where r: "acquisition (map Some fs) failures m = Returned m'"
    and t: "slouch_timer m' = length fs mod (30 * slouch_trigger_time m + 1)"
    and w: "warnings m' = warnings m + length fs div (30 * slouch_trigger_time m + 1)"
    by auto
  show ?thesis using r t w by auto
qed

theorem warning_fires_one_past_trigger_witness:
  "warnings (state_of (acquisition (map Some (replicate 91 slouch_frame)) 0
      calibrated_monitor)) = 1
   \<and> warnings (state_of (acquisition (map Some (replicate 37 slouch_frame)) 0
      calibrated_monitor)) = 0"
  using warning_fires_one_past_trigger[of calibrated_monitor "replicate 91 slouch_frame" 0]
    warning_fires_one_past_trigger[of calibrated_monitor "replicate 37 slouch_frame" 0]
  by (auto simp: calibrated_monitor_facts
        simp del: acquisition.simps)

theorem no_warning_at_ninety_frames:
  "warnings (state_of (acquisition (map Some (replicate 90 slouch_frame)) 0
      calibrated_monitor)) = 0
   \<and> slouch_timer (state_of (acquisition (map Some (replicate 90 slouch_frame)) 0
      calibrated_monitor)) = 90"
proof -
  from slouch_run[of calibrated_monitor "replicate 90 slouch_frame" 0]
  show ?thesis by (auto simp: calibrated_monitor_facts
        simp del: acquisition.simps)
qed

text \<open>
  C2 (as amended). In the monitoring phase, with a warning callback that returns and a
  status callback that returns or is absent: when the counter stands at the trigger,
  the next sub-threshold frame invokes the warning callback and leaves the counter at
  0. If sub-threshold frames keep coming without recovery, the number of further
  warnings is the number of further frames divided by the trigger plus one: none while
  a full trigger-length episode has not re-accumulated, and every further warning is
  paid for by at least a trigger-length run of frames. (A warning callback that raises
  is invoked and leaves the counter where it was, one above the trigger.)
\<close>

theorem warning_resets_counter_until_fresh_episode:
  assumes "monitoring m" "status_returns m" "warning_callback m = Some Returns"
    and "slouch_timer m = 30 * slouch_trigger_time m"
    and "below_threshold m f" "\<forall>g\<in>set fs. below_threshold m g"
  shows "\<exists>m1 m'. process_frame f m = Returned m1
      \<and> warnings m1 = warnings m + 1 \<and> slouch_timer m1 = 0
      \<and> acquisition (map Some fs) failures m1 = Returned m'
      \<and> warnings m' = warnings m1 + length fs div (30 * slouch_trigger_time m + 1)
      \<and> slouch_timer m' = length fs mod (30 * slouch_trigger_time m + 1)
      \<and> (length fs \<le> 30 * slouch_trigger_time m \<longrightarrow> warnings m' = warnings m1)
      \<and> (warnings m' - warnings m1) * (30 * slouch_trigger_time m) \<le> length fs"
proof -
  let ?T = "30 * slouch_trigger_time m"
  have cb: "callbacks_return m" using assms(2,3) by (simp add: callbacks_return_def)
  obtain m1 where step: "process_frame f m = Returned m1"
    and t1: "slouch_timer m1 = 0"
    and w1: "warnings m1 = warnings m + 1"
    and k1: "monitoring m1" "status_returns m1" "warning_callback m1 = Some Returns"
            "slouch_trigger_time m1 = slouch_trigger_time m"
            "below_threshold m1 = below_threshold m"
    using below_threshold_step[of m f] assms cb
    by (simp add: warnings_def count_list_app)
  have pre: "\<forall>g\<in>set fs. below_threshold m1 g"
    "slouch_timer m1 \<le> 30 * slouch_trigger_time m1"
    using assms(6) k1(5) t1 by simp_all
  from slouch_run[OF k1(1,2,3) pre, of failures] t1 k1(4)
  obtain m' where r: "acquisition (map Some fs) failures m1 = Returned m'"
    and t: "slouch_timer m' = length fs mod (?T + 1)"
    and w: "warnings m' = warnings m1 + length fs div (?T + 1)"
    by auto
  have "length fs div (?T + 1) * ?T \<le> length fs div (?T + 1) * (?T + 1)"
    by (rule mult_le_mono2) simp
  also have "\<dots> \<le> length fs" by (rule div_times_less_eq_dividend)
  finally have b: "(warnings m' - warnings m1) * ?T \<le> length fs" using w by simp
  have q: "length fs \<le> ?T \<longrightarrow> warnings m' = warnings m1" using w by simp
  show ?thesis using step t1 w1 r t w b q by blast
qed

theorem warning_resets_counter_until_fresh_episode_witness:
  "\<exists>m1 m'. process_frame slouch_frame (calibrated_monitor\<lparr>slouch_timer := 90\<rparr>) = Returned m1
      \<and> warnings m1 = 1 \<and> slouch_timer m1 = 0
      \<and> acquisition (map Some (replicate 100 slouch_frame)) 0 m1 = Returned m'
      \<and> warnings m' = 2 \<and> slouch_timer m' = 9"
  using warning_resets_counter_until_fresh_episode
    [of "calibrated_monitor\<lparr>slouch_timer := 90\<rparr>" slouch_frame
        "replicate 100 slouch_frame" 0]
  by (auto simp: calibrated_monitor_facts warnings_def
        simp del: acquisition.simps)

theorem raising_warning_callback_keeps_counter:
  "has_raised (acquisition (map Some (replicate 91 slouch_frame)) 0 warning_raising_monitor)
   \<and> slouch_timer (state_of
        (acquisition (map Some (replicate 91 slouch_frame)) 0 warning_raising_monitor)) = 91
   \<and> warnings (state_of
        (acquisition (map Some (replicate 91 slouch_frame)) 0 warning_raising_monitor)) = 1"
proof -
  let ?M = warning_raising_monitor
  have bel: "\<forall>f\<in>set (replicate 90 slouch_frame). below_threshold ?M f"
    by (simp add: warning_raising_monitor_facts)
  have le: "slouch_timer ?M + length (replicate 90 slouch_frame)
      \<le> 30 * slouch_trigger_time ?M"
    by (simp add: warning_raising_monitor_facts)
  from slouch_run_quiet[OF warning_raising_monitor_facts(1,2) bel le, of 0]
  obtain m1 where
    a1: "acquisition (map Some (replicate 90 slouch_frame)) 0 ?M = Returned m1"
    and t1: "slouch_timer m1 = 90" and w1: "warnings m1 = 0"
    and c1: "is_calibrated m1" "baseline_ratio m1 = 1"
    and s1: "same_setup ?M m1"
    by (auto simp: warning_raising_monitor_facts)
  have k1: "running m1" "cap_opened m1" "warning_callback m1 = Some Raises"
    "SENSITIVITY m1 = 17/20" "slouch_trigger_time m1 = 3" "status_returns m1"
    using s1 warning_raising_monitor_facts
    by (simp_all add: same_setup_def cap_opened_def status_returns_def)
  have thr: "3/8 < baseline_ratio m1 * SENSITIVITY m1" using c1(2) k1(4) by simp
  have trig: "30 * slouch_trigger_time m1 < slouch_timer m1 + 1" using t1 k1(5) by simp
  have ret: "15 < slouch_timer m1 + 1 \<longrightarrow> returns_on m1 ''SLOUCHING!''"
    using status_returns_on[OF k1(6)] by simp
  let ?m2 = "m1\<lparr>slouch_timer := slouch_timer m1 + 1,
          current_status :=
            (if 15 < slouch_timer m1 + 1 then ''SLOUCHING!'' else current_status m1),
          calls := calls m1
            @ (if 15 < slouch_timer m1 + 1 then status_events m1 ''SLOUCHING!'' else [])
            @ [warning_call]\<rparr>"
  have a2: "acquisition (Some slouch_frame # []) 0 m1 = Raised CallbackException ?m2"
    by (rule warning_raises[OF k1(1,2) c1(1) current_ratio_slouch thr trig ret k1(3)])
  have split: "replicate 91 slouch_frame = replicate 90 slouch_frame @ [slouch_frame]"
    using replicate_add[of 90 1 slouch_frame] by simp
  have "acquisition (map Some (replicate 90 slouch_frame @ [slouch_frame])) 0 ?M
      = acquisition (map Some [slouch_frame]) 0 m1"
    by (rule acquisition_frames_append[OF a1])
  then have r: "acquisition (map Some (replicate 91 slouch_frame)) 0 ?M
      = Raised CallbackException ?m2"
    using a2 split by simp
  have w2: "warnings ?m2 = 1"
    using w1 by (simp add: warnings_def count_list_app)
  have t2: "slouch_timer ?m2 = 91" using t1 by simp
  show ?thesis unfolding r using t2 w2 by simp
qed



text \<open>
  C8. In the monitoring phase, with a status callback that returns, a frame whose
  ratio is at or above \<^verbatim>\<open>baseline_ratio * SENSITIVITY\<close> sets the counter to 0
  whatever it was, and publishes \<^verbatim>\<open>Good posture\<close>; a run of sub-threshold frames
  that follows (up to the trigger) leaves the counter at the length of that run.
\<close>

theorem good_frame_resets_counter:
  assumes "monitoring m" "status_returns m"
    and "current_ratio f = Some r" "r \<ge> baseline_ratio m * SENSITIVITY m"
    and "\<forall>g\<in>set fs. below_threshold m g"
    and "length fs \<le> 30 * slouch_trigger_time m"
  shows "\<exists>m1 m'. process_frame f m = Returned m1
      \<and> slouch_timer m1 = 0 \<and> current_status m1 = ''Good posture''
      \<and> calls m1 = calls m @ status_events m ''Good posture''
      \<and> acquisition (map Some (f # fs)) failures m = Returned m'
      \<and> slouch_timer m' = length fs"
proof -
  let ?m1 = "m\<lparr>slouch_timer := 0, current_status := ''Good posture'',
                 calls := calls m @ status_events m ''Good posture''\<rparr>"
  have step: "process_frame f m = Returned ?m1"
    using good_step[of m f r] assms by (simp add: monitoring_def)
  have pre: "monitoring ?m1" "status_returns ?m1" "\<forall>g\<in>set fs. below_threshold ?m1 g"
    "slouch_timer ?m1 + length fs \<le> 30 * slouch_trigger_time ?m1"
    using assms by simp_all
  from slouch_run_status[OF pre, of 0] obtain m' where
    r: "acquisition (map Some fs) 0 ?m1 = Returned m'"
    and t: "slouch_timer m' = length fs"
    by auto
  have run: "running m \<and> cap_opened m" using assms(1) by (simp add: monitoring_def)
  have "acquisition (map Some (f # fs)) failures m = Returned m'"
    using run step r by simp
  then show ?thesis using step t by simp
qed

theorem good_frame_resets_counter_witness:
  "slouch_timer (state_of (process_frame upright_frame
      (calibrated_monitor\<lparr>slouch_timer := 40\<rparr>))) = 0
   \<and> slouch_timer (state_of (acquisition
        (map Some (upright_frame # replicate 5 slouch_frame)) 0
        (calibrated_monitor\<lparr>slouch_timer := 40\<rparr>))) = 5"
  using good_frame_resets_counter
      [of "calibrated_monitor\<lparr>slouch_timer := 40\<rparr>" upright_frame 1
          "replicate 5 slouch_frame" 0]
  by (auto simp: calibrated_monitor_facts current_ratio_upright
        simp del: acquisition.simps)

text \<open>
  C9. For a frame with a detected pose, with the three points taken in pixel
  coordinates: when the Euclidean distance between the shoulders is not positive, no
  ratio is computed and the frame leaves the monitor as it was (no calibration, no
  slouch update, no callback); otherwise the ratio is the distance of the nose's
  height from the mean shoulder height, divided by the distance between the shoulders,
  and that ratio is what the calibration or slouch step receives.
\<close>

theorem ratio_skipped_or_computed:
  assumes "pose_landmarks f = Some lm"
    and "nose = to_pixels f (lm0 lm)"
    and "l = to_pixels f (lm11 lm)" "r = to_pixels f (lm12 lm)"
    and "d = sqrt ((fst l - fst r)\<^sup>2 + (snd l - snd r)\<^sup>2)"
  shows "(d \<le> 0 \<longrightarrow> current_ratio f = None \<and> process_frame f m = Returned m)
       \<and> (d > 0 \<longrightarrow>
            current_ratio f = Some (\<bar>(snd l + snd r) / 2 - snd nose\<bar> / d)
          \<and> process_frame f m = on_ratio (\<bar>(snd l + snd r) / 2 - snd nose\<bar> / d) m)"
  using assms
  by (simp add: current_ratio_def ratio_of_def linalg_norm_def process_frame_def Let_def)

theorem ratio_skipped_or_computed_witness:
  "current_ratio slouch_frame = Some (3/8)
   \<and> process_frame degenerate_frame calibrated_monitor = Returned calibrated_monitor"
proof -
  have s1: "pose_landmarks slouch_frame
              = Some \<lparr>lm0 = (1/2, 1/2), lm11 = (3/4, 3/4), lm12 = (1/4, 3/4)\<rparr>"
    by (simp add: slouch_frame_def)
  have s2: "(320, 240) = to_pixels slouch_frame
              (lm0 \<lparr>lm0 = (1/2, 1/2), lm11 = (3/4, 3/4), lm12 = (1/4, 3/4)\<rparr>)"
    by (simp add: slouch_frame_def to_pixels_def)
  have s3: "(480, 360) = to_pixels slouch_frame
              (lm11 \<lparr>lm0 = (1/2, 1/2), lm11 = (3/4, 3/4), lm12 = (1/4, 3/4)\<rparr>)"
    by (simp add: slouch_frame_def to_pixels_def)
  have s4: "(160, 360) = to_pixels slouch_frame
              (lm12 \<lparr>lm0 = (1/2, 1/2), lm11 = (3/4, 3/4), lm12 = (1/4, 3/4)\<rparr>)"
    by (simp add: slouch_frame_def to_pixels_def)
  have s5: "(320::real) = sqrt ((fst (480::real, 360::real) - fst (160::real, 360::real))\<^sup>2
              + (snd (480::real, 360::real) - snd (160::real, 360::real))\<^sup>2)"
    by (rule sym, rule real_sqrt_unique) simp_all
  have a: "current_ratio slouch_frame = Some (3/8)"
    using ratio_skipped_or_computed[OF s1 s2 s3 s4 s5, of calibrated_monitor] by simp
  have d1: "pose_landmarks degenerate_frame
              = Some \<lparr>lm0 = (1/2, 1/2), lm11 = (3/4, 3/4), lm12 = (3/4, 3/4)\<rparr>"
    by (simp add: degenerate_frame_def)
  have d2: "(320, 240) = to_pixels degenerate_frame
              (lm0 \<lparr>lm0 = (1/2, 1/2), lm11 = (3/4, 3/4), lm12 = (3/4, 3/4)\<rparr>)"
    by (simp add: degenerate_frame_def to_pixels_def)
  have d3: "(480, 360) = to_pixels degenerate_frame
              (lm11 \<lparr>lm0 = (1/2, 1/2), lm11 = (3/4, 3/4), lm12 = (3/4, 3/4)\<rparr>)"
    by (simp add: degenerate_frame_def to_pixels_def)
  have d4: "(480, 360) = to_pixels degenerate_frame
              (lm12 \<lparr>lm0 = (1/2, 1/2), lm11 = (3/4, 3/4), lm12 = (3/4, 3/4)\<rparr>)"
    by (simp add: degenerate_frame_def to_pixels_def)
  have d5: "(0::real) = sqrt ((fst (480::real, 360::real) - fst (480::real, 360::real))\<^sup>2
              + (snd (480::real, 360::real) - snd (480::real, 360::real))\<^sup>2)"
    by simp
  have b: "process_frame degenerate_frame calibrated_monitor = Returned calibrated_monitor"
    using ratio_skipped_or_computed[OF d1 d2 d3 d4 d5, of calibrated_monitor] by simp
  show ?thesis using a b by simp
qed

text \<open>
  C10. For three points whose shoulder distance is positive, the ratio is computed, it
  is not negative, and multiplying every coordinate of the three points by a factor
  \<open>k > 0\<close> gives the same ratio.
\<close>

theorem ratio_nonneg_scale_invariant:
  assumes "linalg_norm (fst l - fst r, snd l - snd r) > 0" and "k > 0"
  shows "\<exists>\<rho>. ratio_of nose l r = Some \<rho> \<and> 0 \<le> \<rho>
       \<and> ratio_of (scale_point k nose) (scale_point k l) (scale_point k r) = Some \<rho>"
proof -
  let ?d = "linalg_norm (fst l - fst r, snd l - snd r)"
  let ?n = "\<bar>(snd l + snd r) / 2 - snd nose\<bar>"
  have r0: "ratio_of nose l r = Some (?n / ?d)"
    using assms(1) by (simp add: ratio_of_def Let_def)
  have nn: "0 \<le> ?n / ?d" using assms(1) by simp
  have dk: "linalg_norm (k * fst l - k * fst r, k * snd l - k * snd r) = k * ?d"
    using linalg_norm_scale[OF assms(2), of "fst l - fst r" "snd l - snd r"]
    by (simp add: right_diff_distrib)
  have nk: "\<bar>(k * snd l + k * snd r) / 2 - k * snd nose\<bar> = k * ?n"
  proof -
    have "(k * snd l + k * snd r) / 2 - k * snd nose = k * ((snd l + snd r) / 2 - snd nose)"
      by (simp add: algebra_simps)
    then show ?thesis using assms(2) by (simp add: abs_mult)
  qed
  have pos: "k * ?d > 0" using assms by simp
  have "ratio_of (scale_point k nose) (scale_point k l) (scale_point k r)
          = Some ((k * ?n) / (k * ?d))"
    using pos by (simp add: ratio_of_def scale_point_def Let_def dk nk)
  also have "(k * ?n) / (k * ?d) = ?n / ?d" using assms(2) by simp
  finally show ?thesis using r0 nn by simp
qed

theorem ratio_nonneg_scale_invariant_witness:
  "ratio_of (320, 240) (480, 360) (160, 360) = Some (3/8)
   \<and> ratio_of (640, 480) (960, 720) (320, 720) = Some (3/8)"
  using ratio_nonneg_scale_invariant[of "(480, 360)" "(160, 360)" 2 "(320, 240)"]
  by (auto simp: scale_point_def linalg_norm_horizontal ratio_of_def)

text \<open>
  C5 (as amended). A session whose camera opens, with a status callback that returns or
  is absent, is fed frames that all yield a ratio. Whatever calibration state the
  monitor carried before, with exactly \<^verbatim>\<open>calibration_limit\<close> frames the session
  ends calibrated with the baseline equal to the sum of the ratios divided by the
  limit; with fewer frames it ends not calibrated and the baseline is what it was
  before the session. (A status callback that raises on the last progress report
  stops the loop between the count reaching the limit and the baseline being set.)
\<close>

theorem calibration_completes_at_limit:
  assumes "cap_opened (open_camera VideoCapture 0 3 ((start m)\<lparr>cap := None\<rparr>))"
    and "status_returns m" and "0 < calibration_limit m"
    and "\<forall>f\<in>set fs. current_ratio f \<noteq> None"
    and "length fs \<le> calibration_limit m"
  shows "\<exists>m'. monitor_loop VideoCapture (map Some fs) (start m) = Returned m'
      \<and> (length fs = calibration_limit m \<longrightarrow>
            is_calibrated m'
          \<and> baseline_ratio m' =
              (\<Sum>f\<leftarrow>fs. the (current_ratio f)) / real (calibration_limit m))
      \<and> (length fs < calibration_limit m \<longrightarrow>
            \<not> is_calibrated m' \<and> baseline_ratio m' = baseline_ratio m)"
proof -
  have sr: "status_returns (start m)" using assms(2) by (simp add: start_def status_returns_def)
  have run: "running (start m)" by (simp add: start_def)
  from monitor_loop_opened[OF assms(1) sr, of "map Some fs"] obtain m0 where
    m0: "running m0 = running (start m)" "cap_opened m0" "\<not> is_calibrated m0"
      "calibration_frames m0 = 0" "avg_ratio m0 = 0"
      "baseline_ratio m0 = baseline_ratio (start m)"
      "status_callback m0 = status_callback (start m)"
      "calibration_limit m0 = calibration_limit (start m)"
    and loop: "monitor_loop VideoCapture (map Some fs) (start m) =
          and_then (acquisition (map Some fs) 0 m0)
            (\<lambda>m3. update_status ''Stopped'' ((release_camera m3)\<lparr>running := False\<rparr>))"
    by blast
  have lim: "calibration_limit m0 = calibration_limit m" using m0(8) by (simp add: start_def)
  have base: "baseline_ratio m0 = baseline_ratio m" using m0(6) by (simp add: start_def)
  have sr0: "status_returns m0"
    using sr m0(7) by (simp add: status_returns_def)
  have pre: "running m0" "calibration_frames m0 + length fs \<le> calibration_limit m0"
    using m0(1,4) run lim assms(5) by simp_all
  from calibration_run[OF pre(1) m0(2,3) sr0 assms(4) pre(2), of 0] obtain m3 where
    a: "acquisition (map Some fs) 0 m0 = Returned m3"
    and av: "avg_ratio m3 = avg_ratio m0 + (\<Sum>f\<leftarrow>fs. the (current_ratio f))"
    and c3: "is_calibrated m3 =
           (fs \<noteq> [] \<and> calibration_frames m0 + length fs = calibration_limit m0)"
    and b3: "baseline_ratio m3 =
           (if fs \<noteq> [] \<and> calibration_frames m0 + length fs = calibration_limit m0
            then avg_ratio m3 / real (calibration_limit m0) else baseline_ratio m0)"
    and s3: "same_setup m0 m3"
    by blast
  have sr3: "status_returns m3"
    using sr0 s3 by (simp add: status_returns_def same_setup_def)
  from stopped_fields[OF sr3] obtain m4 where
    u: "update_status ''Stopped'' ((release_camera m3)\<lparr>running := False\<rparr>) = Returned m4"
    and c4: "is_calibrated m4 = is_calibrated m3"
    and b4: "baseline_ratio m4 = baseline_ratio m3"
    by blast
  have r: "monitor_loop VideoCapture (map Some fs) (start m) = Returned m4"
    using loop a u by (simp add: and_then_def)
  have ne: "length fs = calibration_limit m \<Longrightarrow> fs \<noteq> []" using assms(3) by auto
  have full: "length fs = calibration_limit m \<longrightarrow>
        is_calibrated m4
      \<and> baseline_ratio m4 = (\<Sum>f\<leftarrow>fs. the (current_ratio f)) / real (calibration_limit m)"
    using c4 b4 c3 b3 av m0(4,5) lim ne by simp
  have part: "length fs < calibration_limit m \<longrightarrow>
        \<not> is_calibrated m4 \<and> baseline_ratio m4 = baseline_ratio m"
    using c4 b4 c3 b3 m0(4) lim base by simp
  show ?thesis using r full part by blast
qed

theorem calibration_completes_at_limit_witness:
  "(\<exists>m'. monitor_loop (\<lambda>k. camera_ok) (map Some (replicate 90 upright_frame))
            (start (init None None)) = Returned m'
        \<and> is_calibrated m' \<and> baseline_ratio m' = 1)
   \<and> (\<exists>m'. monitor_loop (\<lambda>k. camera_ok) (map Some (replicate 89 upright_frame))
            (start (init None None)) = Returned m'
        \<and> \<not> is_calibrated m' \<and> baseline_ratio m' = 0)"
proof -
  have op: "cap_opened (open_camera (\<lambda>k. camera_ok) 0 3 ((start (init None None))\<lparr>cap := None\<rparr>))"
    by (simp add: numeral_3_eq_3 camera_ok_def cap_opened_def)
  have sr: "status_returns (init None None)" by (simp add: status_returns_def init_def)
  have lim: "calibration_limit (init None None) = 90" by (simp add: init_def)
  have b0: "baseline_ratio (init None None) = 0" by (simp add: init_def)
  have a: "\<exists>m'. monitor_loop (\<lambda>k. camera_ok) (map Some (replicate 90 upright_frame))
            (start (init None None)) = Returned m'
        \<and> is_calibrated m' \<and> baseline_ratio m' = 1"
    using calibration_completes_at_limit[OF op sr, of "replicate 90 upright_frame"]
    by (simp add: lim current_ratio_upright sum_list_replicate)
  have b: "\<exists>m'. monitor_loop (\<lambda>k. camera_ok) (map Some (replicate 89 upright_frame))
            (start (init None None)) = Returned m'
        \<and> \<not> is_calibrated m' \<and> baseline_ratio m' = 0"
    using calibration_completes_at_limit[OF op sr, of "replicate 89 upright_frame"]
    by (simp add: lim b0 current_ratio_upright)
  show ?thesis using a b by blast
qed

theorem raising_progress_callback_blocks_calibration:
  "has_raised (monitor_loop (\<lambda>k. camera_ok) (map Some (replicate 90 upright_frame))
      (start (init None (Some raise_at_full))))
   \<and> calibration_frames (state_of
        (monitor_loop (\<lambda>k. camera_ok) (map Some (replicate 90 upright_frame))
          (start (init None (Some raise_at_full))))) = 90
   \<and> avg_ratio (state_of
        (monitor_loop (\<lambda>k. camera_ok) (map Some (replicate 90 upright_frame))
          (start (init None (Some raise_at_full))))) = 90
   \<and> \<not> is_calibrated (state_of
        (monitor_loop (\<lambda>k. camera_ok) (map Some (replicate 90 upright_frame))
          (start (init None (Some raise_at_full)))))
   \<and> baseline_ratio (state_of
        (monitor_loop (\<lambda>k. camera_ok) (map Some (replicate 90 upright_frame))
          (start (init None (Some raise_at_full))))) = 0"
proof -
  let ?m = "start (init None (Some raise_at_full))"
  let ?V = "\<lambda>k::nat. camera_ok"
  let ?rds = "map Some (replicate 90 upright_frame)"
  have op: "cap_opened (open_camera ?V 0 3 (?m\<lparr>cap := None\<rparr>))"
    by (simp add: numeral_3_eq_3 camera_ok_def cap_opened_def)
  have ret: "returns_on ?m ''Calibrating...''"
    by (simp add: returns_on_def start_def init_def raise_at_full_def)
  from monitor_loop_opened_on[OF op ret, of ?rds] obtain m0 where
    m0: "running m0 = running ?m" "cap_opened m0" "\<not> is_calibrated m0"
      "calibration_frames m0 = 0" "avg_ratio m0 = 0"
      "baseline_ratio m0 = baseline_ratio ?m"
      "status_callback m0 = status_callback ?m"
      "calibration_limit m0 = calibration_limit ?m"
    and loop: "monitor_loop ?V ?rds ?m =
          and_then (acquisition ?rds 0 m0)
            (\<lambda>m3. update_status ''Stopped'' ((release_camera m3)\<lparr>running := False\<rparr>))"
    by blast
  have st: "running m0" "status_callback m0 = Some raise_at_full"
    "calibration_limit m0 = 90" "baseline_ratio m0 = 0"
    using m0 by (simp_all add: start_def init_def)
  have val: "\<forall>f\<in>set (replicate 89 upright_frame). current_ratio f \<noteq> None"
    by (simp add: current_ratio_upright)
  have len: "calibration_frames m0 + length (replicate 89 upright_frame)
      < calibration_limit m0"
    using m0(4) st(3) by simp
  from accumulating_run[OF st(1) m0(2,3) st(2) val len, of 0] obtain m1 where
    a1: "acquisition (map Some (replicate 89 upright_frame)) 0 m0 = Returned m1"
    and f1: "calibration_frames m1 = 89" and v1: "avg_ratio m1 = 89"
    and c1: "\<not> is_calibrated m1" and b1: "baseline_ratio m1 = 0"
    and s1: "same_setup m0 m1"
    using m0(4,5) st(4) by (auto simp: current_ratio_upright sum_list_replicate)
  have k1: "running m1" "cap_opened m1" "status_callback m1 = Some raise_at_full"
    "calibration_limit m1 = 90"
    using s1 st m0(2) by (simp_all add: same_setup_def cap_opened_def)
  have ps: "progress_status m1 = ''Calibrating: 100%''"
    using f1 k1(4) by (simp add: progress_status_def str_hundred)
  have rs: "raises_on m1 (progress_status m1)"
    using k1(3) ps by (simp add: raises_on_def raise_at_full_def)
  have lim: "0 < calibration_limit m1" using k1(4) by simp
  let ?m2 = "m1\<lparr>calibration_frames := calibration_frames m1 + 1,
          avg_ratio := avg_ratio m1 + 1,
          current_status := progress_status m1,
          calls := calls m1 @ [status_call (progress_status m1)]\<rparr>"
  have a2: "acquisition (Some upright_frame # []) 0 m1 = Raised CallbackException ?m2"
    by (rule progress_status_raises[OF k1(1,2) c1 current_ratio_upright lim rs])
  have split: "replicate 90 upright_frame = replicate 89 upright_frame @ [upright_frame]"
    using replicate_add[of 89 1 upright_frame] by simp
  have "acquisition (map Some (replicate 89 upright_frame @ [upright_frame])) 0 m0
      = acquisition (map Some [upright_frame]) 0 m1"
    by (rule acquisition_frames_append[OF a1])
  then have r: "acquisition ?rds 0 m0 = Raised CallbackException ?m2"
    using a2 split by simp
  have ml: "monitor_loop ?V ?rds ?m = Raised CallbackException ?m2"
    using loop r by (simp add: and_then_def)
  have f2: "calibration_frames ?m2 = 90" "avg_ratio ?m2 = 90" "\<not> is_calibrated ?m2"
    "baseline_ratio ?m2 = 0"
    using f1 v1 c1 b1 by simp_all
  show ?thesis unfolding ml using f2 by simp
qed

text \<open>
  C3 (as amended). An exception raised inside a callback is not caught at the call
  site. At each point where the acquisition loop invokes a callback (the four status
  reports of a frame with a ratio, the warning call, the report of a failed camera),
  if the callback invoked there raises, the loop ends at that iteration with that
  exception: the attributes stay as they were at the call (a raising warning callback
  leaves the counter unreset), and whatever frames would follow are never processed.
\<close>

theorem raising_callback_ends_loop:
  assumes "running m" "cap_opened m" "current_ratio f = Some r"
  shows
    "(is_calibrated m \<and> \<not> r < baseline_ratio m * SENSITIVITY m
        \<and> raises_on m ''Good posture'' \<longrightarrow>
      acquisition (Some f # later) failures m =
        Raised CallbackException
          (m\<lparr>slouch_timer := 0, current_status := ''Good posture'',
             calls := calls m @ [status_call ''Good posture'']\<rparr>))
   \<and> (is_calibrated m \<and> r < baseline_ratio m * SENSITIVITY m
        \<and> 15 < slouch_timer m + 1 \<and> raises_on m ''SLOUCHING!'' \<longrightarrow>
      acquisition (Some f # later) failures m =
        Raised CallbackException
          (m\<lparr>slouch_timer := slouch_timer m + 1, current_status := ''SLOUCHING!'',
             calls := calls m @ [status_call ''SLOUCHING!'']\<rparr>))
   \<and> (is_calibrated m \<and> r < baseline_ratio m * SENSITIVITY m
        \<and> 30 * slouch_trigger_time m < slouch_timer m + 1
        \<and> (15 < slouch_timer m + 1 \<longrightarrow> returns_on m ''SLOUCHING!'')
        \<and> warning_callback m = Some Raises \<longrightarrow>
      acquisition (Some f # later) failures m =
        Raised CallbackException
          (m\<lparr>slouch_timer := slouch_timer m + 1,
             current_status :=
               (if 15 < slouch_timer m + 1 then ''SLOUCHING!'' else current_status m),
             calls := calls m
               @ (if 15 < slouch_timer m + 1 then status_events m ''SLOUCHING!'' else [])
               @ [warning_call]\<rparr>))
   \<and> (\<not> is_calibrated m \<and> 0 < calibration_limit m
        \<and> raises_on m (progress_status m) \<longrightarrow>
      acquisition (Some f # later) failures m =
        Raised CallbackException
          (m\<lparr>calibration_frames := calibration_frames m + 1,
             avg_ratio := avg_ratio m + r,
             current_status := progress_status m,
             calls := calls m @ [status_call (progress_status m)]\<rparr>))
   \<and> (\<not> is_calibrated m \<and> 0 < calibration_limit m
        \<and> returns_on m (progress_status m)
        \<and> calibration_limit m \<le> calibration_frames m + 1
        \<and> raises_on m ''Monitoring'' \<longrightarrow>
      acquisition (Some f # later) failures m =
        Raised CallbackException
          (m\<lparr>calibration_frames := calibration_frames m + 1,
             avg_ratio := avg_ratio m + r,
             baseline_ratio := (avg_ratio m + r) / real (calibration_limit m),
             is_calibrated := True,
             current_status := ''Monitoring'',
             calls := calls m @ status_events m (progress_status m)
                        @ [status_call ''Monitoring'']\<rparr>))
   \<and> (30 \<le> failures + 1 \<and> raises_on m ''Error: Camera read failed'' \<longrightarrow>
      acquisition (None # later) failures m =
        Raised CallbackException
          (m\<lparr>current_status := ''Error: Camera read failed'',
             calls := calls m @ [status_call ''Error: Camera read failed'']\<rparr>))"
proof (intro conjI impI)
  assume "is_calibrated m \<and> \<not> r < baseline_ratio m * SENSITIVITY m
        \<and> raises_on m ''Good posture''"
  then show "acquisition (Some f # later) failures m =
        Raised CallbackException
          (m\<lparr>slouch_timer := 0, current_status := ''Good posture'',
             calls := calls m @ [status_call ''Good posture'']\<rparr>)"
    using assms by (blast intro: good_frame_raises)
next
  assume "is_calibrated m \<and> r < baseline_ratio m * SENSITIVITY m
        \<and> 15 < slouch_timer m + 1 \<and> raises_on m ''SLOUCHING!''"
  then show "acquisition (Some f # later) failures m =
        Raised CallbackException
          (m\<lparr>slouch_timer := slouch_timer m + 1, current_status := ''SLOUCHING!'',
             calls := calls m @ [status_call ''SLOUCHING!'']\<rparr>)"
    using assms by (blast intro: slouching_status_raises)
next
  assume "is_calibrated m \<and> r < baseline_ratio m * SENSITIVITY m
        \<and> 30 * slouch_trigger_time m < slouch_timer m + 1
        \<and> (15 < slouch_timer m + 1 \<longrightarrow> returns_on m ''SLOUCHING!'')
        \<and> warning_callback m = Some Raises"
  then show "acquisition (Some f # later) failures m =
        Raised CallbackException
          (m\<lparr>slouch_timer := slouch_timer m + 1,
             current_status :=
               (if 15 < slouch_timer m + 1 then ''SLOUCHING!'' else current_status m),
             calls := calls m
               @ (if 15 < slouch_timer m + 1 then status_events m ''SLOUCHING!'' else [])
               @ [warning_call]\<rparr>)"
    using assms by (blast intro: warning_raises)
next
  assume "\<not> is_calibrated m \<and> 0 < calibration_limit m
        \<and> raises_on m (progress_status m)"
  then show "acquisition (Some f # later) failures m =
        Raised CallbackException
          (m\<lparr>calibration_frames := calibration_frames m + 1,
             avg_ratio := avg_ratio m + r,
             current_status := progress_status m,
             calls := calls m @ [status_call (progress_status m)]\<rparr>)"
    using assms by (blast intro: progress_status_raises)
next
  assume "\<not> is_calibrated m \<and> 0 < calibration_limit m
        \<and> returns_on m (progress_status m)
        \<and> calibration_limit m \<le> calibration_frames m + 1
        \<and> raises_on m ''Monitoring''"
  then show "acquisition (Some f # later) failures m =
        Raised CallbackException
          (m\<lparr>calibration_frames := calibration_frames m + 1,
             avg_ratio := avg_ratio m + r,
             baseline_ratio := (avg_ratio m + r) / real (calibration_limit m),
             is_calibrated := True,
             current_status := ''Monitoring'',
             calls := calls m @ status_events m (progress_status m)
                        @ [status_call ''Monitoring'']\<rparr>)"
    using assms by (blast intro: monitoring_status_raises)
next
  assume "30 \<le> failures + 1 \<and> raises_on m ''Error: Camera read failed''"
  then show "acquisition (None # later) failures m =
        Raised CallbackException
          (m\<lparr>current_status := ''Error: Camera read failed'',
             calls := calls m @ [status_call ''Error: Camera read failed'']\<rparr>)"
    using assms by (blast intro: read_failed_status_raises)
qed

theorem raising_callback_ends_loop_witness:
  "acquisition (Some upright_frame # [Some slouch_frame, Some slouch_frame]) 0
      raising_monitor
     = Raised CallbackException
         (raising_monitor\<lparr>slouch_timer := 0, current_status := ''Good posture'',
            calls := calls raising_monitor @ [status_call ''Good posture'']\<rparr>)
   \<and> acquisition (Some slouch_frame # [Some upright_frame]) 0
        (raising_monitor\<lparr>slouch_timer := 15\<rparr>)
     = Raised CallbackException
         (raising_monitor\<lparr>slouch_timer := 16, current_status := ''SLOUCHING!'',
            calls := calls raising_monitor @ [status_call ''SLOUCHING!'']\<rparr>)
   \<and> acquisition (Some slouch_frame # [Some upright_frame]) 0
        (warning_raising_monitor\<lparr>slouch_timer := 90\<rparr>)
     = Raised CallbackException
         (warning_raising_monitor\<lparr>slouch_timer := 91, current_status := ''SLOUCHING!'',
            calls := calls warning_raising_monitor
              @ status_events warning_raising_monitor ''SLOUCHING!'' @ [warning_call]\<rparr>)
   \<and> acquisition (None # [Some upright_frame]) 29 raising_monitor
     = Raised CallbackException
         (raising_monitor\<lparr>current_status := ''Error: Camera read failed'',
            calls := calls raising_monitor
              @ [status_call ''Error: Camera read failed'']\<rparr>)"
proof -
  have a: "acquisition (Some upright_frame # [Some slouch_frame, Some slouch_frame]) 0
      raising_monitor
     = Raised CallbackException
         (raising_monitor\<lparr>slouch_timer := 0, current_status := ''Good posture'',
            calls := calls raising_monitor @ [status_call ''Good posture'']\<rparr>)"
    using raising_callback_ends_loop
      [of raising_monitor upright_frame 1 "[Some slouch_frame, Some slouch_frame]" 0]
    by (simp add: raising_monitor_facts current_ratio_upright
          del: acquisition.simps)
  have b: "acquisition (Some slouch_frame # [Some upright_frame]) 0
        (raising_monitor\<lparr>slouch_timer := 15\<rparr>)
     = Raised CallbackException
         (raising_monitor\<lparr>slouch_timer := 16, current_status := ''SLOUCHING!'',
            calls := calls raising_monitor @ [status_call ''SLOUCHING!'']\<rparr>)"
    using raising_callback_ends_loop
      [of "raising_monitor\<lparr>slouch_timer := 15\<rparr>" slouch_frame "3/8"
          "[Some upright_frame]" 0]
    by (simp add: raising_monitor_facts current_ratio_slouch slouch_timer_upd_facts
          del: acquisition.simps)
  have c: "acquisition (Some slouch_frame # [Some upright_frame]) 0
        (warning_raising_monitor\<lparr>slouch_timer := 90\<rparr>)
     = Raised CallbackException
         (warning_raising_monitor\<lparr>slouch_timer := 91, current_status := ''SLOUCHING!'',
            calls := calls warning_raising_monitor
              @ status_events warning_raising_monitor ''SLOUCHING!'' @ [warning_call]\<rparr>)"
    using raising_callback_ends_loop
      [of "warning_raising_monitor\<lparr>slouch_timer := 90\<rparr>" slouch_frame "3/8"
          "[Some upright_frame]" 0]
      status_returns_on[OF warning_raising_monitor_facts(2), of "''SLOUCHING!''"]
    by (simp add: warning_raising_monitor_facts current_ratio_slouch
          slouch_timer_upd_facts
          del: acquisition.simps)
  have d: "acquisition (None # [Some upright_frame]) 29 raising_monitor
     = Raised CallbackException
         (raising_monitor\<lparr>current_status := ''Error: Camera read failed'',
            calls := calls raising_monitor
              @ [status_call ''Error: Camera read failed'']\<rparr>)"
    using raising_callback_ends_loop
      [of raising_monitor upright_frame 1 "[Some upright_frame]" 29]
    by (simp add: raising_monitor_facts current_ratio_upright
          del: acquisition.simps)
  show ?thesis using a b c d by blast
qed

theorem raising_status_callback_stops_loop:
  "has_raised (acquisition [Some upright_frame, Some slouch_frame] 0 raising_monitor)
   \<and> slouch_timer (state_of
        (acquisition [Some upright_frame, Some slouch_frame] 0 raising_monitor)) = 0
   \<and> calls (state_of
        (acquisition [Some upright_frame, Some slouch_frame] 0 raising_monitor))
      = [status_call ''Good posture'']"
proof -
  have c: "is_calibrated raising_monitor" "running raising_monitor"
    "cap_opened raising_monitor" "slouch_timer raising_monitor = 0"
    "calls raising_monitor = []"
    "baseline_ratio raising_monitor = 1" "SENSITIVITY raising_monitor = 17/20"
    "status_callback raising_monitor = Some (\<lambda>s. Raises)"
    by (simp_all add: raising_monitor_def calibrated_monitor_def init_def cap_opened_def
          camera_ok_def)
  have u: "update_status ''Good posture'' (raising_monitor\<lparr>slouch_timer := 0\<rparr>)
      = Raised CallbackException
          (raising_monitor\<lparr>current_status := ''Good posture'',
                           calls := [status_call ''Good posture'']\<rparr>)"
    using c(4,5,8) by (simp add: update_status_def)
  have p: "process_frame upright_frame raising_monitor
      = Raised CallbackException
          (raising_monitor\<lparr>current_status := ''Good posture'',
                           calls := [status_call ''Good posture'']\<rparr>)"
    using c(1,6,7) u
    by (simp add: process_frame_def current_ratio_upright on_ratio_def check_slouch_def
          and_then_def)
  have a: "acquisition [Some upright_frame, Some slouch_frame] 0 raising_monitor
      = Raised CallbackException
          (raising_monitor\<lparr>current_status := ''Good posture'',
                           calls := [status_call ''Good posture'']\<rparr>)"
    using c(2,3) p by simp
  show ?thesis unfolding a using c(4) by simp
qed

text \<open>
  C6, evaluated where the code leaves it. Every one of the three attempts opens the
  camera and fails its test read. No attempt has passed both checks, yet the loop does
  not report \<^verbatim>\<open>Error: Camera access denied\<close>: it keeps the last capture object,
  publishes \<^verbatim>\<open>Calibrating...\<close> and puts the next frame through the calibration
  step.
\<close>

theorem unreadable_camera_enters_calibration:
  "\<exists>m'. monitor_loop (\<lambda>k. camera_unreadable) [Some upright_frame]
            (start (init None None)) = Returned m'
      \<and> calibration_frames m' = 1 \<and> avg_ratio m' = 1
      \<and> current_status m' = ''Stopped''"
proof -
  let ?m = "start (init None None)"
  have op: "cap_opened (open_camera (\<lambda>k. camera_unreadable) 0 3 (?m\<lparr>cap := None\<rparr>))"
    by (simp add: numeral_3_eq_3 camera_unreadable_def cap_opened_def)
  have sr: "status_returns ?m" by (simp add: status_returns_def init_def start_def)
  from monitor_loop_opened[OF op sr, of "[Some upright_frame]"] obtain m0 where
    m0: "running m0 = running ?m" "cap_opened m0" "\<not> is_calibrated m0"
      "calibration_frames m0 = 0" "avg_ratio m0 = 0"
      "status_callback m0 = status_callback ?m"
      "calibration_limit m0 = calibration_limit ?m"
    and loop: "monitor_loop (\<lambda>k. camera_unreadable) [Some upright_frame] ?m =
          and_then (acquisition [Some upright_frame] 0 m0)
            (\<lambda>m3. update_status ''Stopped'' ((release_camera m3)\<lparr>running := False\<rparr>))"
    by blast
  have run: "running m0" using m0(1) by (simp add: start_def)
  have sr0: "status_returns m0" using sr m0(6) by (simp add: status_returns_def)
  have lim: "calibration_frames m0 + length [upright_frame] \<le> calibration_limit m0"
    using m0(4,7) by (simp add: start_def init_def)
  have val: "\<forall>f\<in>set [upright_frame]. current_ratio f \<noteq> None"
    by (simp add: current_ratio_upright)
  from calibration_run[OF run m0(2,3) sr0 val lim, of 0] obtain m3 where
    a: "acquisition [Some upright_frame] 0 m0 = Returned m3"
    and f3: "calibration_frames m3 = 1" and a3: "avg_ratio m3 = 1"
    and s3: "same_setup m0 m3"
    using m0(4,5) by (auto simp: current_ratio_upright)
  have sr3: "status_returns m3"
    using sr0 s3 by (simp add: status_returns_def same_setup_def)
  from stopped_fields[OF sr3] obtain m4 where
    u: "update_status ''Stopped'' ((release_camera m3)\<lparr>running := False\<rparr>) = Returned m4"
    and f4: "calibration_frames m4 = calibration_frames m3" "avg_ratio m4 = avg_ratio m3"
      "current_status m4 = ''Stopped''"
    by blast
  have "monitor_loop (\<lambda>k. camera_unreadable) [Some upright_frame] ?m = Returned m4"
    using loop a u by (simp add: and_then_def)
  then show ?thesis using f3 a3 f4 by simp
qed

text \<open>
  C4, evaluated where the code leaves it. A first session calibrates and is stopped after
  fifty consecutive frames under the threshold. A second session of the same monitor
  starts with the calibration state reset (not calibrated, no frames counted) but with
  the consecutive-bad-frame counter still at 50; after its own calibration, forty-one
  frames under the threshold are enough for the warning callback to be invoked.
\<close>

theorem second_session_inherits_slouch_timer:
  "slouch_timer after_first_session = 50
   \<and> is_calibrated after_first_session
   \<and> slouch_timer (state_of (session (\<lambda>k. camera_ok) [] after_first_session)) = 50
   \<and> \<not> is_calibrated (state_of (session (\<lambda>k. camera_ok) [] after_first_session))
   \<and> calibration_frames (state_of (session (\<lambda>k. camera_ok) [] after_first_session)) = 0
   \<and> warnings after_first_session = 0
   \<and> warnings (state_of
        (session (\<lambda>k. camera_ok) second_session_frames after_first_session)) = 1"
proof -
  let ?i = "init (Some Returns) None"
  have i: "\<not> running ?i" "status_returns ?i" "warning_callback ?i = Some Returns"
    "calibration_limit ?i = 90" "SENSITIVITY ?i = 17/20" "slouch_trigger_time ?i = 3"
    "slouch_timer ?i \<le> 90" "slouch_timer ?i = 0" "warnings ?i = 0"
    by (simp_all add: init_def status_returns_def warnings_def)
  from session_upright_then_slouch[OF i(1-7), of 50] obtain m1 where
    s1: "session (\<lambda>k. camera_ok) first_session_frames ?i = Returned m1"
    and f1: "slouch_timer m1 = 50" "warnings m1 = 0"
      "\<not> running m1" "status_returns m1" "warning_callback m1 = Some Returns"
      "calibration_limit m1 = 90" "SENSITIVITY m1 = 17/20" "slouch_trigger_time m1 = 3"
      "is_calibrated m1"
    using i(8,9) by (auto simp: first_session_frames_def)
  have e: "after_first_session = m1" by (simp add: after_first_session_def s1)
  have le: "slouch_timer m1 \<le> 90" using f1(1) by simp
  from session_upright_then_slouch[OF f1(3,4,5,6,7,8) le, of 41] obtain m2 where
    s2: "session (\<lambda>k. camera_ok) second_session_frames m1 = Returned m2"
    and f2: "warnings m2 = 1"
    using f1(1,2) by (auto simp: second_session_frames_def)
  have op: "cap_opened (open_camera (\<lambda>k. camera_ok) 0 3 ((start m1)\<lparr>cap := None\<rparr>))"
    by (simp add: numeral_3_eq_3 camera_ok_def cap_opened_def)
  have sr: "status_returns (start m1)"
    using f1(4) by (simp add: start_def status_returns_def)
  from monitor_loop_opened[OF op sr, of "[]"] obtain m0 where
    m0: "slouch_timer m0 = slouch_timer (start m1)"
      "status_callback m0 = status_callback (start m1)"
      "\<not> is_calibrated m0" "calibration_frames m0 = 0"
    and loop: "monitor_loop (\<lambda>k. camera_ok) [] (start m1) =
          and_then (acquisition [] 0 m0)
            (\<lambda>m3. update_status ''Stopped'' ((release_camera m3)\<lparr>running := False\<rparr>))"
    by blast
  have sr0: "status_returns m0" using sr m0(2) by (simp add: status_returns_def)
  from stopped_fields[OF sr0] obtain m3 where
    u3: "update_status ''Stopped'' ((release_camera m0)\<lparr>running := False\<rparr>) = Returned m3"
    and f3: "slouch_timer m3 = slouch_timer m0" "status_callback m3 = status_callback m0"
      "is_calibrated m3 = is_calibrated m0" "calibration_frames m3 = calibration_frames m0"
    by blast
  have ml: "monitor_loop (\<lambda>k. camera_ok) [] (start m1) = Returned m3"
    using loop u3 by (simp add: and_then_def)
  have sr3: "status_returns m3" using sr0 f3(2) by (simp add: status_returns_def)
  from stop_fields[OF sr3] obtain m4 where
    u4: "stop m3 = Returned m4" and f4: "slouch_timer m4 = slouch_timer m3"
      "is_calibrated m4 = is_calibrated m3" "calibration_frames m4 = calibration_frames m3"
    by blast
  have s0: "session (\<lambda>k. camera_ok) [] m1 = Returned m4"
    using f1(3) ml u4 by (simp add: session_def)
  have t4: "slouch_timer m4 = 50"
    using f4(1) f3(1) m0(1) f1(1) by (simp add: start_def)
  have c4: "\<not> is_calibrated m4" "calibration_frames m4 = 0"
    using f4(2,3) f3(3,4) m0(3,4) by simp_all
  show ?thesis using e f1(1,2,9) s0 t4 c4 s2 f2 by simp
qed

end
